theory Spec2Isabelle
  imports Complex_Main "HOL-Library.Multiset"
begin

section \<open>Data model\<close>

text \<open>
  A JSON scalar as it reaches a route handler in \<^verbatim>\<open>req.body\<close>.  A field the body
  does not hold reads as \<^verbatim>\<open>undefined\<close>.  A JSON number is a finite double, that is
  a real number; the characters of a string are the units its length is counted in.
  Bodies whose fields are arrays or objects are outside this model.
\<close>

datatype jsval = JUndefined | JNull | JBool bool | JNum real | JStr string

text \<open>
  The tables of the relational store, one record per row.  Of the models only User is
  among the sources; the columns of the other models are the ones
  \<^verbatim>\<open>routes/api/groups.js\<close> reads and writes.  The columns that
  \<^verbatim>\<open>Group.create\<close>, \<^verbatim>\<open>group.set\<close> and \<^verbatim>\<open>Venue.create\<close> fill from the request body
  hold the JSON scalar the model's setter leaves; the coercion to the column type that
  the database adds is not modelled.  A Group row carries the \<^verbatim>\<open>createdAt\<close> and
  \<^verbatim>\<open>updatedAt\<close> stamps that Sequelize maintains (milliseconds); the stamps of the other
  tables are written once, when a row is created, and no route here reads or rewrites
  them: they are left out.  An Event may have no venue (\<^verbatim>\<open>venueId\<close> is \<^verbatim>\<open>NULL\<close>).
\<close>

record group_row =
  g_id :: nat
  g_organizerId :: nat
  g_name :: jsval
  g_about :: jsval
  g_type :: jsval
  g_private :: jsval
  g_city :: jsval
  g_state :: jsval
  g_createdAt :: int
  g_updatedAt :: int

record membership_row =
  m_id :: nat
  m_groupId :: nat
  m_userId :: nat
  m_status :: string

record groupImage_row =
  gi_id :: nat
  gi_groupId :: nat
  gi_url :: string
  gi_preview :: bool

record venue_row =
  v_id :: nat
  v_groupId :: nat
  v_address :: jsval
  v_city :: jsval
  v_state :: jsval
  v_lat :: jsval
  v_lng :: jsval

text \<open>
  An Event row: its key columns, and every other column of the model (name, startDate,
  description, capacity, price, ...) as a list of attribute name and value, in the
  order of the model's \<^verbatim>\<open>rawAttributes\<close>.
\<close>

record event_row =
  e_id :: nat
  e_groupId :: nat
  e_venueId :: "nat option"
  e_columns :: "(string \<times> jsval) list"

record attendance_row =
  a_id :: nat
  a_eventId :: nat
  a_userId :: nat
  a_status :: string

record eventImage_row =
  ei_id :: nat
  ei_eventId :: nat
  ei_url :: string
  ei_preview :: bool

text \<open>
  The store: the tables, and for each table a route inserts into the last key its
  sequence has handed out (a key is never handed out twice, also not the key of a row
  since deleted).
\<close>

record db =
  Groups :: "group_row list"
  Memberships :: "membership_row list"
  GroupImages :: "groupImage_row list"
  Venues :: "venue_row list"
  Events :: "event_row list"
  Attendances :: "attendance_row list"
  EventImages :: "eventImage_row list"
  Groups_seq :: nat
  GroupImages_seq :: nat
  Venues_seq :: nat

section \<open>The queries Sequelize issues\<close>

text \<open>
  An association named under \<^verbatim>\<open>include:\<close> without \<^verbatim>\<open>required: true\<close> is a
  \<^verbatim>\<open>LEFT OUTER JOIN\<close>; its \<^verbatim>\<open>where\<close> goes into the join's \<^verbatim>\<open>ON\<close> clause.  A left row
  with no match is kept once, with \<^verbatim>\<open>NULL\<close> (here \<open>None\<close>) for the right columns.
\<close>

definition outer :: "'a list \<Rightarrow> 'a option list" where
  "outer xs = (if xs = [] then [None] else map Some xs)"

definition left_join :: "('l \<Rightarrow> 'r \<Rightarrow> bool) \<Rightarrow> 'l list \<Rightarrow> 'r list \<Rightarrow> ('l \<times> 'r option) list" where
  "left_join on ls rs = concat (map (\<lambda>l. map (Pair l) (outer (filter (on l) rs))) ls)"

text \<open>
  \<^verbatim>\<open>GROUP BY\<close>: the rows with equal keys form one bucket.  A bucket is returned with
  its first row, which supplies the columns the key determines.  The buckets come in
  the order of the tables here; a query without \<^verbatim>\<open>ORDER BY\<close> fixes no order, and no
  statement about a listing below depends on one.
\<close>

fun group_by :: "('r \<Rightarrow> 'k) \<Rightarrow> 'r list \<Rightarrow> ('r \<times> 'r list) list" where
  "group_by key [] = []"
| "group_by key (r # rs) =
     (r, r # filter (\<lambda>x. key x = key r) rs) # group_by key (filter (\<lambda>x. key x \<noteq> key r) rs)"

text \<open>
  \<^verbatim>\<open>COUNT(col)\<close> counts the rows of the bucket whose \<^verbatim>\<open>col\<close> is not \<^verbatim>\<open>NULL\<close>.
\<close>

definition COUNT :: "('r \<Rightarrow> 'c option) \<Rightarrow> 'r list \<Rightarrow> nat" where
  "COUNT col bucket = length (filter (\<lambda>r. col r \<noteq> None) bucket)"

text \<open>
  A \<^verbatim>\<open>findAll\<close> that includes a has-many association builds one instance per primary
  key of the top model: of the result rows with the same key, the first is kept
  (Sequelize's \<^verbatim>\<open>_groupJoinData\<close> with \<^verbatim>\<open>checkExisting\<close>).
\<close>

fun groupJoinData :: "('r \<Rightarrow> nat) \<Rightarrow> 'r list \<Rightarrow> 'r list" where
  "groupJoinData pk [] = []"
| "groupJoinData pk (r # rs) = r # groupJoinData pk (filter (\<lambda>x. pk x \<noteq> pk r) rs)"

subsection \<open>GET /groups\<close>

text \<open>
  \<^verbatim>\<open>Group.findAll\<close> of \<^verbatim>\<open>router.get('/')\<close> is the query
  \<^verbatim>\<open>SELECT Group.*, COUNT(Memberships.id) AS numMembers, GroupImages.url AS previewImage
  FROM Groups AS Group
  LEFT OUTER JOIN Memberships ON Group.id = Memberships.groupId
  LEFT OUTER JOIN GroupImages ON Group.id = GroupImages.groupId AND GroupImages.preview = true
  GROUP BY Group.id, GroupImages.url\<close>.
\<close>

type_synonym group_join = "(group_row \<times> membership_row option) \<times> groupImage_row option"

definition group_joins :: "db \<Rightarrow> group_join list" where
  "group_joins d =
     left_join (\<lambda>(g, m) i. gi_groupId i = g_id g \<and> gi_preview i)
       (left_join (\<lambda>g m. m_groupId m = g_id g) (Groups d) (Memberships d))
       (GroupImages d)"

definition group_key :: "group_join \<Rightarrow> nat \<times> string option" where
  "group_key r = (g_id (fst (fst r)), map_option gi_url (snd r))"

record group_entry =
  en_group :: group_row
  numMembers :: nat
  previewImage :: "string option"

definition group_select :: "group_join \<times> group_join list \<Rightarrow> group_entry" where
  "group_select b =
     \<lparr>en_group = fst (fst (fst b)),
      numMembers = COUNT (\<lambda>r. map_option m_id (snd (fst r))) (snd b),
      previewImage = map_option gi_url (snd (fst b))\<rparr>"

definition GET_groups :: "db \<Rightarrow> group_entry list" where
  "GET_groups d =
     groupJoinData (\<lambda>e. g_id (en_group e))
       (map group_select (group_by group_key (group_joins d)))"

text \<open>\<^verbatim>\<open>Membership.count({where: {groupId}})\<close>.\<close>

definition Membership_count :: "db \<Rightarrow> nat \<Rightarrow> nat" where
  "Membership_count d gid = length (filter (\<lambda>m. m_groupId m = gid) (Memberships d))"


text \<open>The rows the two joins of the group listing contribute for one group.\<close>

definition group_members :: "db \<Rightarrow> nat \<Rightarrow> membership_row list" where
  "group_members d gid = filter (\<lambda>m. m_groupId m = gid) (Memberships d)"

definition group_previews :: "db \<Rightarrow> nat \<Rightarrow> groupImage_row list" where
  "group_previews d gid = filter (\<lambda>i. gi_groupId i = gid \<and> gi_preview i) (GroupImages d)"

definition rows_of_group :: "db \<Rightarrow> group_row \<Rightarrow> group_join list" where
  "rows_of_group d g =
     concat (map (\<lambda>mo. map (\<lambda>io. ((g, mo), io)) (outer (group_previews d (g_id g))))
                 (outer (group_members d (g_id g))))"

text \<open>
  How many joined rows one Membership row of the group contributes to the bucket whose
  \<^verbatim>\<open>GroupImages.url\<close> is \<open>u\<close>: one when the group has no preview image, else one per
  preview image of the group with that url.
\<close>

definition preview_multiplicity :: "db \<Rightarrow> nat \<Rightarrow> string option \<Rightarrow> nat" where
  "preview_multiplicity d gid u =
     (case u of None \<Rightarrow> 1 | Some x \<Rightarrow> length (filter (\<lambda>p. gi_url p = x) (group_previews d gid)))"

section \<open>Requests, errors and the guards of a route\<close>

text \<open>
  What a handler reads of the request: \<^verbatim>\<open>req.user.id\<close> (absent when the session
  middleware found no user), \<^verbatim>\<open>req.params.groupId\<close> and \<^verbatim>\<open>req.body\<close>.
\<close>

record request =
  user_id :: "nat option"
  groupId :: nat
  body :: "string \<Rightarrow> jsval"

text \<open>
  The error body \<^verbatim>\<open>{title, errors: {field: message}, status}\<close>; the title is not
  modelled.
\<close>

record http_error =
  status :: nat
  errors :: "string \<rightharpoonup> string"

type_synonym guard = "request \<Rightarrow> db \<Rightarrow> http_error option"

text \<open>
  The middlewares named in a route run left to right; the first that calls
  \<^verbatim>\<open>next(err)\<close> ends the request with that error, and the handler runs only when
  all have called \<^verbatim>\<open>next()\<close>.
\<close>

fun run_guards :: "guard list \<Rightarrow> request \<Rightarrow> db \<Rightarrow> http_error option" where
  "run_guards [] req d = None"
| "run_guards (g # gs) req d =
     (case g req d of Some e \<Rightarrow> Some e | None \<Rightarrow> run_guards gs req d)"

text \<open>\<^verbatim>\<open>Group.findByPk\<close>.\<close>

definition findByPk :: "db \<Rightarrow> nat \<Rightarrow> group_row option" where
  "findByPk d k = find (\<lambda>g. g_id g = k) (Groups d)"

text \<open>
  Modelled from the spec: \<^verbatim>\<open>requireAuth\<close>, \<^verbatim>\<open>groupExists\<close>, \<^verbatim>\<open>isOrganizer\<close> and
  \<^verbatim>\<open>isOrgOrCo\<close> of \<^verbatim>\<open>utils/auth\<close>, which is not among the sources.  The spec: a request
  without authentication returns 401; a predicate loads the Group, and failure to find
  it is a not-found outcome (404) distinct from an authorization failure (403); the
  capability sets are the organizer, and the organizer or a co-host (a Membership with
  the co-host status, written \<^verbatim>\<open>co-host\<close> here).
\<close>

definition requireAuth :: guard where
  "requireAuth req d =
     (case user_id req of None \<Rightarrow> Some \<lparr>status = 401, errors = Map.empty\<rparr> | Some u \<Rightarrow> None)"

definition groupExists :: guard where
  "groupExists req d =
     (case findByPk d (groupId req) of
        None \<Rightarrow> Some \<lparr>status = 404, errors = Map.empty\<rparr>
      | Some g \<Rightarrow> None)"

definition isOrganizer :: guard where
  "isOrganizer req d =
     (case findByPk d (groupId req) of
        None \<Rightarrow> Some \<lparr>status = 404, errors = Map.empty\<rparr>
      | Some g \<Rightarrow>
          if user_id req = Some (g_organizerId g) then None
          else Some \<lparr>status = 403, errors = Map.empty\<rparr>)"

definition isOrgOrCo :: guard where
  "isOrgOrCo req d =
     (case findByPk d (groupId req) of
        None \<Rightarrow> Some \<lparr>status = 404, errors = Map.empty\<rparr>
      | Some g \<Rightarrow>
          if user_id req = Some (g_organizerId g)
             \<or> list_ex (\<lambda>m. m_groupId m = g_id g \<and> Some (m_userId m) = user_id req
                            \<and> m_status m = ''co-host'') (Memberships d)
          then None
          else Some \<lparr>status = 403, errors = Map.empty\<rparr>)"

text \<open>
  A handler that dereferences what its guards have established (\<^verbatim>\<open>req.user.id\<close>, the
  row \<^verbatim>\<open>findByPk\<close> returns) throws where that is missing; behind the guards this is
  never reached.
\<close>

definition server_error :: http_error where
  "server_error = \<lparr>status = 500, errors = Map.empty\<rparr>"

text \<open>The status of a response: \<^verbatim>\<open>res.status(200).json(...)\<close> on success.\<close>

definition status_of :: "http_error + 'a \<Rightarrow> nat" where
  "status_of r = (case r of Inl e \<Rightarrow> status e | Inr x \<Rightarrow> 200)"

section \<open>Validation chains (express-validator)\<close>

text \<open>
  What the validators take from the JavaScript runtime: \<^verbatim>\<open>String(n)\<close> of a number, and
  for a string whether validator.js reads it as a float literal, with its
  \<^verbatim>\<open>parseFloat\<close> value.
\<close>

record jslib =
  String_number :: "real \<Rightarrow> string"
  float_literal :: "string \<Rightarrow> real option"

text \<open>\<^verbatim>\<open>!!value\<close>, which \<^verbatim>\<open>exists({checkFalsy: true})\<close> applies to the field as received.\<close>

fun truthy :: "jsval \<Rightarrow> bool" where
  "truthy JUndefined = False"
| "truthy JNull = False"
| "truthy (JBool b) = b"
| "truthy (JNum n) = (n \<noteq> 0)"
| "truthy (JStr s) = (s \<noteq> [])"

text \<open>The string a standard validator is run on.\<close>

fun toString :: "jslib \<Rightarrow> jsval \<Rightarrow> string" where
  "toString L JUndefined = []"
| "toString L JNull = []"
| "toString L (JBool b) = (if b then ''true'' else ''false'')"
| "toString L (JNum n) = String_number L n"
| "toString L (JStr s) = s"

datatype validator =
    Exists bool
  | IsLength "nat option" "nat option"
  | IsIn "string list"
  | IsBoolean
  | IsFloat real real

text \<open>
  \<open>Exists checkFalsy\<close>; \<open>IsLength min max\<close>; \<open>IsIn values\<close>; \<open>IsFloat gt lt\<close> with both
  bounds exclusive.
\<close>

fun run_validator :: "jslib \<Rightarrow> validator \<Rightarrow> jsval \<Rightarrow> bool" where
  "run_validator L (Exists checkFalsy) v = (if checkFalsy then truthy v else v \<noteq> JUndefined)"
| "run_validator L (IsLength mn mx) v =
     ((case mn of None \<Rightarrow> 0 | Some m \<Rightarrow> m) \<le> length (toString L v)
      \<and> (case mx of None \<Rightarrow> True | Some m \<Rightarrow> length (toString L v) \<le> m))"
| "run_validator L (IsIn vs) v = (toString L v \<in> set vs)"
| "run_validator L IsBoolean v = (toString L v \<in> set [''true'', ''false'', ''1'', ''0''])"
| "run_validator L (IsFloat gt lt) v =
     (case float_literal L (toString L v) of None \<Rightarrow> False | Some x \<Rightarrow> gt < x \<and> x < lt)"

text \<open>
  \<^verbatim>\<open>check(field)\<close> followed by its validators; \<^verbatim>\<open>withMessage\<close> sets the message of
  the validator before it, the others report \<^verbatim>\<open>Invalid value\<close>.  Every validator of
  a chain runs (there is no \<^verbatim>\<open>bail\<close>).  The field is read from the body; a field of
  the same name in the query string, the route parameters, the cookies or the headers
  is outside this model.
\<close>

type_synonym check_chain = "string \<times> (validator \<times> string option) list"

definition run_check :: "jslib \<Rightarrow> (string \<Rightarrow> jsval) \<Rightarrow> check_chain \<Rightarrow> (string \<times> string) list" where
  "run_check L b c =
     map (\<lambda>vm. (fst c, case snd vm of None \<Rightarrow> ''Invalid value'' | Some m \<Rightarrow> m))
       (filter (\<lambda>vm. \<not> run_validator L (fst vm) (b (fst c))) (snd c))"

definition validationResult :: "jslib \<Rightarrow> check_chain list \<Rightarrow> request \<Rightarrow> (string \<times> string) list" where
  "validationResult L cs req = concat (map (run_check L (body req)) cs)"

text \<open>
  Modelled from the spec: \<^verbatim>\<open>handleValidationErrors\<close> of \<^verbatim>\<open>utils/validation\<close>, which is
  not among the sources.  The spec: validation failure returns a structured per-field
  error map with HTTP 400.  Of two messages for one field the later one is kept.
\<close>

definition handleValidationErrors :: "(string \<times> string) list \<Rightarrow> http_error option" where
  "handleValidationErrors es =
     (if es = [] then None else Some \<lparr>status = 400, errors = map_of (rev es)\<rparr>)"

definition validate :: "jslib \<Rightarrow> check_chain list \<Rightarrow> guard" where
  "validate L cs req d = handleValidationErrors (validationResult L cs req)"

definition validateGroup :: "check_chain list" where
  "validateGroup =
     [(''name'', [(Exists True, None),
                  (IsLength None (Some 60), Some ''Name must be 60 characters or less'')]),
      (''about'', [(Exists True, None),
                   (IsLength (Some 50) None, Some ''About must be 50 characters or more'')]),
      (''type'', [(IsIn [''Online'', ''In person''],
                   Some (''Type must be 'Online' or 'In person'' @ [CHR 0x27]))]),
      (''private'', [(Exists False, None),
                     (IsBoolean, Some ''Private must be a boolean'')]),
      (''city'', [(Exists True, Some ''City is required'')]),
      (''state'', [(Exists True, Some ''State is required'')])]"

definition validateVenue :: "check_chain list" where
  "validateVenue =
     [(''address'', [(Exists True, Some ''Street address is required'')]),
      (''city'', [(Exists True, Some ''City is required'')]),
      (''state'', [(Exists True, Some ''State is required'')]),
      (''lat'', [(Exists True, None),
                 (IsFloat (- 89) 91, Some ''Latitude is not valid'')]),
      (''lng'', [(Exists True, None),
                 (IsFloat (- 179) 181, Some ''Longitude is not valid'')])]"


section \<open>The routes of routes/api/groups.js\<close>

subsection \<open>GET /groups/current\<close>

text \<open>
  The first query is the one of the group listing with
  \<^verbatim>\<open>WHERE Group.organizerId = :uid OR Memberships.userId = :uid\<close> before the grouping and
  \<^verbatim>\<open>ORDER BY Group.id\<close> after it.  A comparison with \<^verbatim>\<open>NULL\<close> is not true.
\<close>

definition current_where :: "nat \<Rightarrow> group_join \<Rightarrow> bool" where
  "current_where uid r =
     (g_organizerId (fst (fst r)) = uid
      \<or> (case snd (fst r) of None \<Rightarrow> False | Some m \<Rightarrow> m_userId m = uid))"

definition current_groups1 :: "nat \<Rightarrow> db \<Rightarrow> group_entry list" where
  "current_groups1 uid d =
     groupJoinData (\<lambda>e. g_id (en_group e))
       (sort_key (\<lambda>e. g_id (en_group e))
          (map group_select (group_by group_key (filter (current_where uid) (group_joins d)))))"

text \<open>The loop over \<^verbatim>\<open>groups1\<close> overwrites \<^verbatim>\<open>numMembers\<close> with \<^verbatim>\<open>Membership.count\<close>.\<close>

definition GET_current :: "request \<Rightarrow> db \<Rightarrow> http_error + group_entry list" where
  "GET_current req d =
     (case run_guards [requireAuth] req d of
        Some e \<Rightarrow> Inl e
      | None \<Rightarrow>
          (case user_id req of
             None \<Rightarrow> Inl server_error
           | Some uid \<Rightarrow>
               Inr (map (\<lambda>g. g\<lparr>numMembers := Membership_count d (g_id (en_group g))\<rparr>)
                      (current_groups1 uid d))))"

text \<open>
  The route as the spec would have it, with the second query removed: the entries of
  the first query are the response.
\<close>

definition GET_current_single_query :: "request \<Rightarrow> db \<Rightarrow> http_error + group_entry list" where
  "GET_current_single_query req d =
     (case run_guards [requireAuth] req d of
        Some e \<Rightarrow> Inl e
      | None \<Rightarrow>
          (case user_id req of
             None \<Rightarrow> Inl server_error
           | Some uid \<Rightarrow> Inr (current_groups1 uid d)))"

subsection \<open>POST /groups, PUT /groups/:groupId, DELETE /groups/:groupId\<close>

text \<open>
  Modelled from the spec: the \<^verbatim>\<open>private\<close> column of the Group model, which is not
  among the sources, is a boolean.  The setter of a boolean attribute turns the strings
  \<^verbatim>\<open>true\<close> and \<^verbatim>\<open>false\<close> and the numbers 1 and 0 into booleans and leaves every
  other value as it is.
\<close>

fun BOOLEAN_sanitize :: "jsval \<Rightarrow> jsval" where
  "BOOLEAN_sanitize (JStr s) =
     (if s = ''true'' then JBool True else if s = ''false'' then JBool False else JStr s)"
| "BOOLEAN_sanitize (JNum n) =
     (if n = 1 then JBool True else if n = 0 then JBool False else JNum n)"
| "BOOLEAN_sanitize v = v"

text \<open>
  \<^verbatim>\<open>Group.create\<close> at the time \<open>now\<close>: the row gets the next key of the sequence
  and both stamps.
\<close>

definition POST_groups :: "jslib \<Rightarrow> int \<Rightarrow> request \<Rightarrow> db \<Rightarrow> (http_error + group_row) \<times> db" where
  "POST_groups L now req d =
     (case run_guards [requireAuth, validate L validateGroup] req d of
        Some e \<Rightarrow> (Inl e, d)
      | None \<Rightarrow>
          (case user_id req of
             None \<Rightarrow> (Inl server_error, d)
           | Some uid \<Rightarrow>
               let g = \<lparr>g_id = Suc (Groups_seq d),
                        g_organizerId = uid,
                        g_name = body req ''name'',
                        g_about = body req ''about'',
                        g_type = body req ''type'',
                        g_private = BOOLEAN_sanitize (body req ''private''),
                        g_city = body req ''city'',
                        g_state = body req ''state'',
                        g_createdAt = now,
                        g_updatedAt = now\<rparr>
               in (Inr g, d\<lparr>Groups := Groups d @ [g], Groups_seq := Suc (Groups_seq d)\<rparr>)))"

text \<open>\<^verbatim>\<open>group.set({name, about, type, private, city, state})\<close>.\<close>

definition group_set :: "(string \<Rightarrow> jsval) \<Rightarrow> group_row \<Rightarrow> group_row" where
  "group_set b g =
     g\<lparr>g_name := b ''name'', g_about := b ''about'', g_type := b ''type'',
       g_private := BOOLEAN_sanitize (b ''private''), g_city := b ''city'',
       g_state := b ''state''\<rparr>"

text \<open>
  \<^verbatim>\<open>group.save()\<close> at the time \<open>now\<close>.  When no attribute was changed by the
  \<^verbatim>\<open>set\<close>, no statement is issued.  Otherwise it is
  \<^verbatim>\<open>UPDATE Groups SET ..., updatedAt = :now WHERE id = :id\<close> with the changed columns
  (the primary key selects the one row), and the instance, which is the response,
  carries the new stamp.
\<close>

definition PUT_group :: "jslib \<Rightarrow> int \<Rightarrow> request \<Rightarrow> db \<Rightarrow> (http_error + group_row) \<times> db" where
  "PUT_group L now req d =
     (case run_guards [requireAuth, groupExists, isOrganizer, validate L validateGroup] req d of
        Some e \<Rightarrow> (Inl e, d)
      | None \<Rightarrow>
          (case findByPk d (groupId req) of
             None \<Rightarrow> (Inl server_error, d)
           | Some g \<Rightarrow>
               if group_set (body req) g = g then (Inr g, d)
               else
                 (Inr ((group_set (body req) g)\<lparr>g_updatedAt := now\<rparr>),
                  d\<lparr>Groups :=
                      map (\<lambda>x. if g_id x = g_id g
                                then (group_set (body req) x)\<lparr>g_updatedAt := now\<rparr> else x)
                        (Groups d)\<rparr>)))"

text \<open>
  Modelled from the spec: the cascade of \<^verbatim>\<open>group.destroy()\<close>, declared in the Group
  model, which is not among the sources.  The spec: deleting a Group cascades to its
  Memberships, GroupImages, Venues and Events (and with an Event go its Attendances
  and EventImages).
\<close>

definition destroy_group :: "nat \<Rightarrow> db \<Rightarrow> db" where
  "destroy_group gid d =
     (let gone = map e_id (filter (\<lambda>e. e_groupId e = gid) (Events d)) in
      d\<lparr>Groups := filter (\<lambda>g. g_id g \<noteq> gid) (Groups d),
        Memberships := filter (\<lambda>m. m_groupId m \<noteq> gid) (Memberships d),
        GroupImages := filter (\<lambda>i. gi_groupId i \<noteq> gid) (GroupImages d),
        Venues := filter (\<lambda>v. v_groupId v \<noteq> gid) (Venues d),
        Events := filter (\<lambda>e. e_groupId e \<noteq> gid) (Events d),
        Attendances := filter (\<lambda>a. a_eventId a \<notin> set gone) (Attendances d),
        EventImages := filter (\<lambda>i. ei_eventId i \<notin> set gone) (EventImages d)\<rparr>)"

definition DELETE_group :: "request \<Rightarrow> db \<Rightarrow> (http_error + string) \<times> db" where
  "DELETE_group req d =
     (case run_guards [requireAuth, groupExists, isOrganizer] req d of
        Some e \<Rightarrow> (Inl e, d)
      | None \<Rightarrow>
          (case findByPk d (groupId req) of
             None \<Rightarrow> (Inl server_error, d)
           | Some g \<Rightarrow> (Inr ''Successfully deleted'', destroy_group (g_id g) d)))"

subsection \<open>POST /groups/:groupId/images\<close>

text \<open>
  The GroupImage model is not among the sources: what the model and the database store
  for the \<^verbatim>\<open>url\<close> and the \<^verbatim>\<open>preview\<close> of the body is the parameter \<open>columns\<close>,
  \<open>None\<close> where the insert is refused (the handler does not catch the error).  The
  response \<^verbatim>\<open>safeImg\<close> holds the id, url and preview of the new row.
\<close>

definition POST_group_image ::
  "(jsval \<Rightarrow> jsval \<Rightarrow> (string \<times> bool) option) \<Rightarrow> request \<Rightarrow> db
   \<Rightarrow> (http_error + nat \<times> string \<times> bool) \<times> db" where
  "POST_group_image columns req d =
     (case run_guards [requireAuth, groupExists, isOrganizer] req d of
        Some e \<Rightarrow> (Inl e, d)
      | None \<Rightarrow>
          (case columns (body req ''url'') (body req ''preview'') of
             None \<Rightarrow> (Inl server_error, d)
           | Some c \<Rightarrow>
               let i = \<lparr>gi_id = Suc (GroupImages_seq d), gi_groupId = groupId req,
                        gi_url = fst c, gi_preview = snd c\<rparr>
               in (Inr (gi_id i, gi_url i, gi_preview i),
                   d\<lparr>GroupImages := GroupImages d @ [i],
                     GroupImages_seq := Suc (GroupImages_seq d)\<rparr>)))"

subsection \<open>POST /groups/:groupId/venues\<close>

definition POST_venue :: "jslib \<Rightarrow> request \<Rightarrow> db \<Rightarrow> (http_error + venue_row) \<times> db" where
  "POST_venue L req d =
     (case run_guards [requireAuth, groupExists, isOrgOrCo, validate L validateVenue] req d of
        Some e \<Rightarrow> (Inl e, d)
      | None \<Rightarrow>
          let v = \<lparr>v_id = Suc (Venues_seq d),
                   v_groupId = groupId req,
                   v_address = body req ''address'',
                   v_city = body req ''city'',
                   v_state = body req ''state'',
                   v_lat = body req ''lat'',
                   v_lng = body req ''lng''\<rparr>
          in (Inr v, d\<lparr>Venues := Venues d @ [v], Venues_seq := Suc (Venues_seq d)\<rparr>))"

subsection \<open>GET /groups/:groupId/events\<close>

text \<open>
  \<^verbatim>\<open>Event.findAll\<close> joins, in the order of its \<^verbatim>\<open>include\<close>, the Attendances with
  \<^verbatim>\<open>status = 'attending'\<close>, the EventImages with \<^verbatim>\<open>preview = true\<close>, the Group and the
  Venue, all as left outer joins; keeps the rows \<^verbatim>\<open>WHERE Event.groupId = :groupId\<close>; and
  groups \<^verbatim>\<open>BY Event.id, EventImages.url, Group.id, Venue.id\<close>.
\<close>

type_synonym event_join =
  "(((event_row \<times> attendance_row option) \<times> eventImage_row option) \<times> group_row option)
   \<times> venue_row option"

definition ej_event :: "event_join \<Rightarrow> event_row" where
  "ej_event r = fst (fst (fst (fst r)))"

definition ej_attendance :: "event_join \<Rightarrow> attendance_row option" where
  "ej_attendance r = snd (fst (fst (fst r)))"

definition ej_image :: "event_join \<Rightarrow> eventImage_row option" where
  "ej_image r = snd (fst (fst r))"

definition ej_group :: "event_join \<Rightarrow> group_row option" where
  "ej_group r = snd (fst r)"

definition ej_venue :: "event_join \<Rightarrow> venue_row option" where
  "ej_venue r = snd r"

definition event_joins :: "db \<Rightarrow> event_join list" where
  "event_joins d =
     left_join (\<lambda>r v. Some (v_id v) = e_venueId (fst (fst (fst r))))
       (left_join (\<lambda>r g. g_id g = e_groupId (fst (fst r)))
          (left_join (\<lambda>r i. ei_eventId i = e_id (fst r) \<and> ei_preview i)
             (left_join (\<lambda>e a. a_eventId a = e_id e \<and> a_status a = ''attending'')
                (Events d) (Attendances d))
             (EventImages d))
          (Groups d))
       (Venues d)"

definition event_key :: "event_join \<Rightarrow> nat \<times> string option \<times> nat option \<times> nat option" where
  "event_key r =
     (e_id (ej_event r), map_option ei_url (ej_image r),
      map_option g_id (ej_group r), map_option v_id (ej_venue r))"

record event_entry =
  ee_event :: event_row
  numAttending :: nat
  ee_previewImage :: "string option"
  ee_Group :: "group_row option"
  ee_Venue :: "venue_row option"

definition event_select :: "event_join \<times> event_join list \<Rightarrow> event_entry" where
  "event_select b =
     \<lparr>ee_event = ej_event (fst b),
      numAttending = COUNT (\<lambda>r. map_option a_id (ej_attendance r)) (snd b),
      ee_previewImage = map_option ei_url (ej_image (fst b)),
      ee_Group = ej_group (fst b),
      ee_Venue = ej_venue (fst b)\<rparr>"

definition events_findAll :: "nat \<Rightarrow> db \<Rightarrow> event_entry list" where
  "events_findAll gid d =
     groupJoinData (\<lambda>e. e_id (ee_event e))
       (map event_select
          (group_by event_key (filter (\<lambda>r. e_groupId (ej_event r) = gid) (event_joins d))))"

text \<open>
  The JSON of one event of the listing.  The attributes of the Event model are selected
  as \<^verbatim>\<open>attributes: {include, exclude}\<close> says: the model's attributes without the
  excluded ones, then the included ones; the two nested models carry the attributes
  their \<^verbatim>\<open>include\<close> names, or are \<^verbatim>\<open>null\<close> where the join found no row.
\<close>

datatype json = JVal jsval | JObj "(string \<times> jsval) list"

definition Event_attributes :: "event_row \<Rightarrow> (string \<times> jsval) list" where
  "Event_attributes e =
     [(''id'', JNum (real (e_id e))), (''groupId'', JNum (real (e_groupId e))),
      (''venueId'', case e_venueId e of None \<Rightarrow> JNull | Some v \<Rightarrow> JNum (real v))]
     @ e_columns e"

definition events_exclude :: "string list" where
  "events_exclude = [''description'', ''capacity'', ''price'', ''createdAt'', ''updatedAt'']"

definition Group_summary :: "group_row \<Rightarrow> json" where
  "Group_summary g =
     JObj [(''id'', JNum (real (g_id g))), (''name'', g_name g), (''city'', g_city g),
           (''state'', g_state g)]"

definition Venue_summary :: "venue_row \<Rightarrow> json" where
  "Venue_summary v =
     JObj [(''id'', JNum (real (v_id v))), (''city'', v_city v), (''state'', v_state v)]"

definition event_toJSON :: "event_entry \<Rightarrow> (string \<times> json) list" where
  "event_toJSON en =
     map (\<lambda>kv. (fst kv, JVal (snd kv)))
       (filter (\<lambda>kv. fst kv \<notin> set events_exclude) (Event_attributes (ee_event en)))
     @ [(''numAttending'', JVal (JNum (real (numAttending en)))),
        (''previewImage'', JVal (case ee_previewImage en of None \<Rightarrow> JNull | Some u \<Rightarrow> JStr u)),
        (''Group'', case ee_Group en of None \<Rightarrow> JVal JNull | Some g \<Rightarrow> Group_summary g),
        (''Venue'', case ee_Venue en of None \<Rightarrow> JVal JNull | Some v \<Rightarrow> Venue_summary v)]"

definition GET_group_events :: "request \<Rightarrow> db \<Rightarrow> http_error + (string \<times> json) list list" where
  "GET_group_events req d =
     (case run_guards [requireAuth, groupExists] req d of
        Some e \<Rightarrow> Inl e
      | None \<Rightarrow> Inr (map event_toJSON (events_findAll (groupId req) d)))"

section \<open>The client: getTimeEvents of SingleGroupPage\<close>

text \<open>
  An event of the client's store, with its \<^verbatim>\<open>startDate\<close> string.  \<^verbatim>\<open>Date.parse\<close> is a
  parameter: the time value in milliseconds, or \<open>None\<close> for \<^verbatim>\<open>NaN\<close> (a string that
  is no date).  \<^verbatim>\<open>new Date(s)\<close> holds the same time value.
\<close>

record client_event =
  ev_id :: nat
  startDate :: string

text \<open>\<^verbatim>\<open>current > eventDate\<close>: false when the event's date is invalid.\<close>

definition Date_gt :: "int \<Rightarrow> int option \<Rightarrow> bool" where
  "Date_gt current eventDate = (case eventDate of None \<Rightarrow> False | Some t \<Rightarrow> t < current)"

text \<open>
  The loop reads the clock once per event: \<open>clock i\<close> is \<^verbatim>\<open>new Date()\<close> of iteration
  \<open>i\<close>.
\<close>

fun partition_loop ::
  "(string \<Rightarrow> int option) \<Rightarrow> (nat \<Rightarrow> int) \<Rightarrow> nat \<Rightarrow> client_event list
   \<Rightarrow> client_event list \<times> client_event list \<Rightarrow> client_event list \<times> client_event list" where
  "partition_loop Date_parse clock i [] acc = acc"
| "partition_loop Date_parse clock i (e # es) acc =
     (if Date_gt (clock i) (Date_parse (startDate e))
      then partition_loop Date_parse clock (Suc i) es (fst acc @ [e], snd acc)
      else partition_loop Date_parse clock (Suc i) es (fst acc, snd acc @ [e]))"

text \<open>\<^verbatim>\<open>Date.parse(a.startDate) - Date.parse(b.startDate)\<close>; \<open>None\<close> is \<^verbatim>\<open>NaN\<close>.\<close>

definition sorter :: "(string \<Rightarrow> int option) \<Rightarrow> client_event \<Rightarrow> client_event \<Rightarrow> int option" where
  "sorter Date_parse a b =
     (case (Date_parse (startDate a), Date_parse (startDate b)) of
        (Some x, Some y) \<Rightarrow> Some (x - y)
      | _ \<Rightarrow> None)"

text \<open>
  \<^verbatim>\<open>Array.prototype.sort\<close> with a comparator: a stable sort that puts \<open>a\<close> after \<open>b\<close>
  when the comparator's result is positive and reads \<^verbatim>\<open>NaN\<close> as \<open>0\<close>.  For a
  comparator that is a consistent order, as \<open>sorter\<close> is on valid dates, the result
  of a stable sort is unique; it is computed here by insertion.  Where the comparator
  is not a consistent order, as with a \<^verbatim>\<open>NaN\<close> result, the language leaves the order to
  the engine, and the engines differ from each other and from the insertion below.
  What the theorems state of such a list holds of every order of its elements; the one
  such list that is run, in the counterexample of the sortedness claim, has three
  events of which the middle one has no valid date: both comparisons read as \<open>0\<close>,
  and insertion and a run-detecting merge sort alike leave the list as it is.
\<close>

fun js_insert :: "('a \<Rightarrow> 'a \<Rightarrow> int option) \<Rightarrow> 'a \<Rightarrow> 'a list \<Rightarrow> 'a list" where
  "js_insert cmp x [] = [x]"
| "js_insert cmp x (y # ys) =
     (if (case cmp x y of None \<Rightarrow> False | Some v \<Rightarrow> 0 < v) then y # js_insert cmp x ys
      else x # y # ys)"

definition js_sort :: "('a \<Rightarrow> 'a \<Rightarrow> int option) \<Rightarrow> 'a list \<Rightarrow> 'a list" where
  "js_sort cmp xs = foldr (js_insert cmp) xs []"

definition getTimeEvents ::
  "(string \<Rightarrow> int option) \<Rightarrow> (nat \<Rightarrow> int) \<Rightarrow> client_event list
   \<Rightarrow> client_event list \<times> client_event list" where
  "getTimeEvents Date_parse clock events =
     (let acc = partition_loop Date_parse clock 0 events ([], [])
      in (js_sort (sorter Date_parse) (fst acc), js_sort (sorter Date_parse) (snd acc)))"

text \<open>Ascending order of the parsed start dates, for two events whose dates are valid.\<close>

definition start_le :: "(string \<Rightarrow> int option) \<Rightarrow> client_event \<Rightarrow> client_event \<Rightarrow> bool" where
  "start_le Date_parse a b =
     (case (Date_parse (startDate a), Date_parse (startDate b)) of
        (Some x, Some y) \<Rightarrow> x \<le> y
      | _ \<Rightarrow> False)"

text \<open>\<open>is_past\<close>: the parsed start date is strictly earlier than \<open>now\<close>.\<close>

definition is_past :: "(string \<Rightarrow> int option) \<Rightarrow> int \<Rightarrow> client_event \<Rightarrow> bool" where
  "is_past Date_parse now e =
     (case Date_parse (startDate e) of None \<Rightarrow> False | Some t \<Rightarrow> t < now)"

text \<open>The rows the four joins of the event listing contribute for one event.\<close>

definition event_attending :: "db \<Rightarrow> nat \<Rightarrow> attendance_row list" where
  "event_attending d eid =
     filter (\<lambda>a. a_eventId a = eid \<and> a_status a = ''attending'') (Attendances d)"

definition event_previews :: "db \<Rightarrow> nat \<Rightarrow> eventImage_row list" where
  "event_previews d eid = filter (\<lambda>i. ei_eventId i = eid \<and> ei_preview i) (EventImages d)"

definition event_groups :: "db \<Rightarrow> event_row \<Rightarrow> group_row list" where
  "event_groups d e = filter (\<lambda>g. g_id g = e_groupId e) (Groups d)"

definition event_venues :: "db \<Rightarrow> event_row \<Rightarrow> venue_row list" where
  "event_venues d e = filter (\<lambda>v. Some (v_id v) = e_venueId e) (Venues d)"

definition rows_of_event :: "db \<Rightarrow> event_row \<Rightarrow> event_join list" where
  "rows_of_event d e =
     concat (map (\<lambda>ao.
       concat (map (\<lambda>io.
         concat (map (\<lambda>go.
           map (\<lambda>vo. ((((e, ao), io), go), vo)) (outer (event_venues d e)))
           (outer (event_groups d e))))
         (outer (event_previews d (e_id e)))))
       (outer (event_attending d (e_id e))))"

definition event_preview_multiplicity :: "db \<Rightarrow> nat \<Rightarrow> string option \<Rightarrow> nat" where
  "event_preview_multiplicity d eid u =
     (case u of None \<Rightarrow> 1
      | Some x \<Rightarrow> length (filter (\<lambda>p. ei_url p = x) (event_previews d eid)))"

section \<open>Example stores and requests\<close>

definition example_group :: "nat \<Rightarrow> nat \<Rightarrow> group_row" where
  "example_group i organizer =
     \<lparr>g_id = i, g_organizerId = organizer, g_name = JStr ''Evening Tennis on the Water'',
      g_about = JStr (replicate 50 CHR ''a''), g_type = JStr ''In person'',
      g_private = JBool True, g_city = JStr ''New York'', g_state = JStr ''NY'',
      g_createdAt = 1000, g_updatedAt = 1000\<rparr>"

text \<open>
  One group with one member and one preview image; and the same group after the same
  preview image has been attached a second time.
\<close>

definition store_one_preview :: db where
  "store_one_preview =
     \<lparr>Groups = [example_group 1 1],
      Memberships = [\<lparr>m_id = 1, m_groupId = 1, m_userId = 2, m_status = ''member''\<rparr>],
      GroupImages = [\<lparr>gi_id = 1, gi_groupId = 1, gi_url = ''a.png'', gi_preview = True\<rparr>],
      Venues = [], Events = [], Attendances = [], EventImages = [],
      Groups_seq = 1, GroupImages_seq = 1, Venues_seq = 0\<rparr>"

definition store_same_preview_twice :: db where
  "store_same_preview_twice =
     store_one_preview\<lparr>GroupImages :=
       [\<lparr>gi_id = 1, gi_groupId = 1, gi_url = ''a.png'', gi_preview = True\<rparr>,
        \<lparr>gi_id = 2, gi_groupId = 1, gi_url = ''a.png'', gi_preview = True\<rparr>],
       GroupImages_seq := 2\<rparr>"

text \<open>Two groups, the second without an image; two members in the first.\<close>

definition store_two_groups :: db where
  "store_two_groups =
     \<lparr>Groups = [example_group 1 1, example_group 2 3],
      Memberships = [\<lparr>m_id = 1, m_groupId = 1, m_userId = 2, m_status = ''member''\<rparr>,
                     \<lparr>m_id = 2, m_groupId = 1, m_userId = 3, m_status = ''pending''\<rparr>],
      GroupImages = [\<lparr>gi_id = 1, gi_groupId = 1, gi_url = ''a.png'', gi_preview = True\<rparr>,
                     \<lparr>gi_id = 2, gi_groupId = 1, gi_url = ''b.png'', gi_preview = False\<rparr>],
      Venues = [], Events = [], Attendances = [], EventImages = [],
      Groups_seq = 2, GroupImages_seq = 2, Venues_seq = 0\<rparr>"

definition request_of :: "nat option \<Rightarrow> nat \<Rightarrow> request" where
  "request_of u gid = \<lparr>user_id = u, groupId = gid, body = (\<lambda>k. JUndefined)\<rparr>"

text \<open>
  A fragment of the runtime, enough for the numbers 0, -90 and 10 and the strings
  that denote them.
\<close>

definition example_runtime :: jslib where
  "example_runtime =
     \<lparr>String_number = (\<lambda>r. if r = 0 then ''0'' else if r = - 90 then ''-90'' else ''10''),
      float_literal = (\<lambda>s. if s = ''0'' then Some 0 else if s = ''-90'' then Some (- 90)
                            else if s = ''10'' then Some 10 else None)\<rparr>"

definition venue_body :: "jsval \<Rightarrow> string \<Rightarrow> jsval" where
  "venue_body lat k =
     (if k = ''address'' then JStr ''123 Disney Lane'' else if k = ''city'' then JStr ''New York''
      else if k = ''state'' then JStr ''NY'' else if k = ''lat'' then lat
      else if k = ''lng'' then JNum 10 else JUndefined)"

definition group_body :: "jsval \<Rightarrow> string \<Rightarrow> jsval" where
  "group_body about k =
     (if k = ''name'' then JStr ''Evening Tennis on the Water'' else if k = ''about'' then about
      else if k = ''type'' then JStr ''In person'' else if k = ''private'' then JBool True
      else if k = ''city'' then JStr ''New York'' else if k = ''state'' then JStr ''NY''
      else JUndefined)"

definition request_with :: "nat option \<Rightarrow> nat \<Rightarrow> (string \<Rightarrow> jsval) \<Rightarrow> request" where
  "request_with u gid b = \<lparr>user_id = u, groupId = gid, body = b\<rparr>"

text \<open>\<^verbatim>\<open>Date.parse\<close> on three dates (milliseconds since the epoch, UTC).\<close>

definition example_Date_parse :: "string \<Rightarrow> int option" where
  "example_Date_parse s =
     (if s = ''2019-01-01'' then Some 1546300800000
      else if s = ''2020-01-01'' then Some 1577836800000
      else if s = ''2099-01-01'' then Some 4070908800000
      else None)"

definition example_events :: "client_event list" where
  "example_events =
     [\<lparr>ev_id = 1, startDate = ''2099-01-01''\<rparr>, \<lparr>ev_id = 2, startDate = ''2020-01-01''\<rparr>,
      \<lparr>ev_id = 3, startDate = ''2019-01-01''\<rparr>]"

text \<open>
  A group with a venue and one event; of its two Attendance rows one is attending, one
  pending.  In the first store the event has one preview image, in the second the same
  image has been attached twice.
\<close>

definition example_event :: event_row where
  "example_event =
     \<lparr>e_id = 1, e_groupId = 1, e_venueId = Some 1,
      e_columns = [(''name'', JStr ''Tennis Group First Meet and Greet''),
                   (''startDate'', JStr ''2021-11-19 20:00:00''),
                   (''description'', JStr ''The first meet and greet for our group''),
                   (''capacity'', JNum 10), (''price'', JNum 18.5),
                   (''createdAt'', JStr ''2021-11-19 20:39:36''),
                   (''updatedAt'', JStr ''2021-11-19 20:39:36'')]\<rparr>"

definition store_events :: db where
  "store_events =
     \<lparr>Groups = [example_group 1 1],
      Memberships = [],
      GroupImages = [],
      Venues = [\<lparr>v_id = 1, v_groupId = 1, v_address = JStr ''123 Disney Lane'',
                 v_city = JStr ''New York'', v_state = JStr ''NY'', v_lat = JNum 37.5,
                 v_lng = JNum (- 122.5)\<rparr>],
      Events = [example_event],
      Attendances = [\<lparr>a_id = 1, a_eventId = 1, a_userId = 2, a_status = ''attending''\<rparr>,
                     \<lparr>a_id = 2, a_eventId = 1, a_userId = 3, a_status = ''pending''\<rparr>],
      EventImages = [\<lparr>ei_id = 1, ei_eventId = 1, ei_url = ''e.png'', ei_preview = True\<rparr>],
      Groups_seq = 1, GroupImages_seq = 0, Venues_seq = 1\<rparr>"

definition store_event_same_preview_twice :: db where
  "store_event_same_preview_twice =
     store_events\<lparr>EventImages :=
       [\<lparr>ei_id = 1, ei_eventId = 1, ei_url = ''e.png'', ei_preview = True\<rparr>,
        \<lparr>ei_id = 2, ei_eventId = 1, ei_url = ''e.png'', ei_preview = True\<rparr>]\<rparr>"

text \<open>The two groups, with user 3 a co-host of the first.\<close>

definition store_with_cohost :: db where
  "store_with_cohost =
     store_two_groups\<lparr>Memberships :=
       [\<lparr>m_id = 1, m_groupId = 1, m_userId = 2, m_status = ''member''\<rparr>,
        \<lparr>m_id = 2, m_groupId = 1, m_userId = 3, m_status = ''co-host''\<rparr>]\<rparr>"

text \<open>The same store with the event's venue removed from the event.\<close>

definition store_event_without_venue :: db where
  "store_event_without_venue =
     store_events\<lparr>Events := [example_event\<lparr>e_venueId := None\<rparr>]\<rparr>"

text \<open>Three events that are all upcoming at time 0; the second has no valid date.\<close>

definition events_with_unparseable :: "client_event list" where
  "events_with_unparseable =
     [\<lparr>ev_id = 1, startDate = ''2020-01-01''\<rparr>, \<lparr>ev_id = 2, startDate = ''not a date''\<rparr>,
      \<lparr>ev_id = 3, startDate = ''2019-01-01''\<rparr>]"

text \<open>An image table that stores a string url and a boolean preview as they are.\<close>

definition example_image_columns :: "jsval \<Rightarrow> jsval \<Rightarrow> (string \<times> bool) option" where
  "example_image_columns u p =
     (case u of JStr s \<Rightarrow> (case p of JBool b \<Rightarrow> Some (s, b) | _ \<Rightarrow> None) | _ \<Rightarrow> None)"

definition image_body :: "string \<Rightarrow> jsval" where
  "image_body k =
     (if k = ''url'' then JStr ''a.png'' else if k = ''preview'' then JBool True else JUndefined)"

section \<open>Proofs\<close>

subsection \<open>Grouping and joining\<close>

lemma group_by_bucket:
  "(r, b) \<in> set (group_by key rows) \<Longrightarrow> r \<in> set rows \<and> b = filter (\<lambda>x. key x = key r) rows"
proof (induction key rows rule: group_by.induct)
  case (1 key)
  then show ?case by simp
next
  case (2 key r0 rs)
  show ?case
  proof (cases "(r, b) = (r0, r0 # filter (\<lambda>x. key x = key r0) rs)")
    case True
    then show ?thesis by simp
  next
    case False
    from 2(2) False have mem: "(r, b) \<in> set (group_by key (filter (\<lambda>x. key x \<noteq> key r0) rs))"
      by auto
    from 2(1)[OF mem] have r: "r \<in> set (filter (\<lambda>x. key x \<noteq> key r0) rs)"
      and b: "b = filter (\<lambda>x. key x = key r) (filter (\<lambda>x. key x \<noteq> key r0) rs)" by simp_all
    from r have ne: "key r \<noteq> key r0" by simp
    have "filter (\<lambda>x. key x = key r) (filter (\<lambda>x. key x \<noteq> key r0) rs) = filter (\<lambda>x. key x = key r) rs"
      using ne by (auto intro: filter_cong)
    with b r ne show ?thesis by auto
  qed
qed

lemma group_by_covers:
  "r \<in> set rows \<Longrightarrow> \<exists>p \<in> set (group_by key rows). key (fst p) = key r"
proof (induction key rows rule: group_by.induct)
  case (1 key)
  then show ?case by simp
next
  case (2 key r0 rs)
  show ?case
  proof (cases "key r = key r0")
    case True
    then show ?thesis by simp
  next
    case False
    with 2(2) have "r \<in> set (filter (\<lambda>x. key x \<noteq> key r0) rs)" by auto
    from 2(1)[OF this] show ?thesis by auto
  qed
qed

lemma groupJoinData_subset: "set (groupJoinData pk xs) \<subseteq> set xs"
  by (induction pk xs rule: groupJoinData.induct) auto

lemma groupJoinData_covers:
  "x \<in> set xs \<Longrightarrow> \<exists>y \<in> set (groupJoinData pk xs). pk y = pk x"
proof (induction pk xs rule: groupJoinData.induct)
  case (1 pk)
  then show ?case by simp
next
  case (2 pk r rs)
  show ?case
  proof (cases "pk x = pk r")
    case True
    then show ?thesis by simp
  next
    case False
    with 2(2) have "x \<in> set (filter (\<lambda>y. pk y \<noteq> pk r) rs)" by auto
    from 2(1)[OF this] show ?thesis by auto
  qed
qed

lemma groupJoinData_distinct: "distinct (map pk (groupJoinData pk xs))"
proof (induction pk xs rule: groupJoinData.induct)
  case (1 pk)
  then show ?case by simp
next
  case (2 pk r rs)
  have "pk r \<notin> pk ` set (groupJoinData pk (filter (\<lambda>x. pk x \<noteq> pk r) rs))"
    using groupJoinData_subset[of pk "filter (\<lambda>x. pk x \<noteq> pk r) rs"] by auto
  with 2 show ?case by simp
qed

lemma concat_map_concat:
  "concat (map f (concat (map h ls))) = concat (map (\<lambda>l. concat (map f (h l))) ls)"
  by (induction ls) simp_all

lemma group_joins_rows: "group_joins d = concat (map (rows_of_group d) (Groups d))"
  unfolding group_joins_def left_join_def rows_of_group_def group_members_def group_previews_def
  by (simp add: concat_map_concat comp_def)

lemma rows_of_group_fst: "r \<in> set (rows_of_group d g) \<Longrightarrow> fst (fst r) = g"
  by (auto simp: rows_of_group_def)

lemma rows_of_group_snd:
  "r \<in> set (rows_of_group d g) \<Longrightarrow> snd r \<in> set (outer (group_previews d (g_id g)))"
  by (auto simp: rows_of_group_def)

lemma rows_of_group_nonempty: "rows_of_group d g \<noteq> []"
  by (auto simp: rows_of_group_def outer_def)

text \<open>Every entry of a grouped listing comes from a joined row of one group.\<close>

lemma group_select_origin:
  assumes "e \<in> set (map group_select (group_by group_key (filter W (group_joins d))))"
  obtains r g where "r \<in> set (filter W (group_joins d))" "g \<in> set (Groups d)"
    "r \<in> set (rows_of_group d g)" "en_group e = g"
    "previewImage e = map_option gi_url (snd r)"
    "numMembers e = COUNT (\<lambda>x. map_option m_id (snd (fst x)))
        (filter (\<lambda>x. group_key x = group_key r) (filter W (group_joins d)))"
proof -
  from assms obtain r b where rb: "(r, b) \<in> set (group_by group_key (filter W (group_joins d)))"
    and e: "e = group_select (r, b)" by auto
  from group_by_bucket[OF rb] have r: "r \<in> set (filter W (group_joins d))"
    and b: "b = filter (\<lambda>x. group_key x = group_key r) (filter W (group_joins d))" by simp_all
  from r have "r \<in> set (group_joins d)" by simp
  then obtain g where g: "g \<in> set (Groups d)" and rg: "r \<in> set (rows_of_group d g)"
    by (auto simp: group_joins_rows)
  from rg have "fst (fst r) = g" by (rule rows_of_group_fst)
  with e b r g rg show ?thesis
    by (intro that[of r g]) (simp_all add: group_select_def)
qed

lemma GET_groups_origin:
  assumes "e \<in> set (GET_groups d)"
  shows "e \<in> set (map group_select (group_by group_key (filter (\<lambda>r. True) (group_joins d))))"
proof -
  have "set (GET_groups d) \<subseteq> set (map group_select (group_by group_key (group_joins d)))"
    unfolding GET_groups_def by (rule groupJoinData_subset)
  with assms show ?thesis by auto
qed

lemma preview_of_row:
  assumes "io \<in> set (outer ps)"
  shows "(ps = [] \<longrightarrow> map_option gi_url io = None)
       \<and> (ps \<noteq> [] \<longrightarrow> (\<exists>p \<in> set ps. map_option gi_url io = Some (gi_url p)))"
  using assms by (auto simp: outer_def split: if_splits)

lemma GET_groups_covers:
  assumes "g \<in> set (Groups d)"
  shows "\<exists>e \<in> set (GET_groups d). en_group e \<in> set (Groups d) \<and> g_id (en_group e) = g_id g"
proof -
  obtain r where r: "r \<in> set (rows_of_group d g)"
    using rows_of_group_nonempty[of d g] by (cases "rows_of_group d g") auto
  with assms have rin: "r \<in> set (group_joins d)" by (auto simp: group_joins_rows)
  from group_by_covers[OF rin, of group_key]
  obtain p where p: "p \<in> set (group_by group_key (group_joins d))"
    and k: "group_key (fst p) = group_key r" by auto
  have "g_id (en_group (group_select p)) = g_id g"
    using k rows_of_group_fst[OF r] by (simp add: group_select_def group_key_def)
  moreover have "group_select p \<in> set (map group_select (group_by group_key (group_joins d)))"
    using p by simp
  ultimately obtain e where e: "e \<in> set (GET_groups d)" and ge: "g_id (en_group e) = g_id g"
    using groupJoinData_covers[of "group_select p" _ "\<lambda>e. g_id (en_group e)"]
    unfolding GET_groups_def by metis
  from GET_groups_origin[OF e] have "en_group e \<in> set (Groups d)"
    by (rule group_select_origin) simp
  with e ge show ?thesis by auto
qed


lemma count_product:
  "length (filter (\<lambda>r. A (snd (fst r)) \<and> B (snd r))
      (concat (map (\<lambda>mo. map (\<lambda>io. ((g, mo), io)) ios) mos)))
   = length (filter A mos) * length (filter B ios)"
proof (induction mos)
  case Nil
  then show ?case by simp
next
  case (Cons mo mos)
  have "length (filter (\<lambda>r. A (snd (fst r)) \<and> B (snd r)) (map (\<lambda>io. ((g, mo), io)) ios))
        = (if A mo then length (filter B ios) else 0)"
    by (simp add: filter_map comp_def)
  with Cons show ?case by simp
qed

lemma filter_rows_of_other:
  "g_id g' \<noteq> gid \<Longrightarrow> filter (\<lambda>r. g_id (fst (fst r)) = gid \<and> Q r) (rows_of_group d g') = []"
  by (auto simp: filter_empty_conv dest: rows_of_group_fst)

lemma filter_rows_of_same:
  "filter (\<lambda>r. g_id (fst (fst r)) = g_id g \<and> Q r) (rows_of_group d g) = filter Q (rows_of_group d g)"
  by (rule filter_cong) (auto dest: rows_of_group_fst)

lemma filter_group_rows:
  assumes "distinct (map g_id gs)" and "g \<in> set gs"
  shows "filter (\<lambda>r. g_id (fst (fst r)) = g_id g \<and> Q r) (concat (map (rows_of_group d) gs))
         = filter Q (rows_of_group d g)"
  using assms
proof (induction gs)
  case Nil
  then show ?case by simp
next
  case (Cons a gs)
  show ?case
  proof (cases "a = g")
    case True
    with Cons.prems have "g_id g \<notin> g_id ` set gs" by simp
    then have "\<forall>g' \<in> set gs. g_id g' \<noteq> g_id g" by (metis image_eqI)
    then have "filter (\<lambda>r. g_id (fst (fst r)) = g_id g \<and> Q r) (concat (map (rows_of_group d) gs)) = []"
      by (auto simp: filter_empty_conv dest: rows_of_group_fst)
    with True show ?thesis by (simp add: filter_rows_of_same)
  next
    case False
    with Cons.prems have g: "g \<in> set gs" and ne: "g_id a \<noteq> g_id g" and d: "distinct (map g_id gs)"
      by auto
    from Cons.IH[OF d g] ne show ?thesis by (simp add: filter_rows_of_other)
  qed
qed

lemma count_outer_members:
  "length (filter (\<lambda>mo. map_option m_id mo \<noteq> None \<and> W mo) (outer ms))
   = length (filter (\<lambda>m. W (Some m)) ms)"
  by (simp add: outer_def filter_map comp_def)

lemma count_outer_previews:
  "io \<in> set (outer ps) \<Longrightarrow>
   length (filter (\<lambda>x. map_option gi_url x = map_option gi_url io) (outer ps))
   = (case map_option gi_url io of None \<Rightarrow> 1 | Some u \<Rightarrow> length (filter (\<lambda>p. gi_url p = u) ps))"
  by (auto simp: outer_def filter_map comp_def split: if_splits)

text \<open>
  The aggregate of one bucket, for a where clause \<open>W\<close> over the group and membership
  columns: the Membership rows of the group that pass it, each counted once per joined
  preview image with the bucket's url.
\<close>

lemma bucket_count:
  assumes pk: "distinct (map g_id (Groups d))"
    and r: "r \<in> set (filter W' (group_joins d))"
    and W: "\<And>x. W' x = W (fst (fst x)) (snd (fst x))"
  shows "COUNT (\<lambda>x. map_option m_id (snd (fst x)))
           (filter (\<lambda>x. group_key x = group_key r) (filter W' (group_joins d)))
         = length (filter (\<lambda>m. W (fst (fst r)) (Some m)) (group_members d (g_id (fst (fst r)))))
           * preview_multiplicity d (g_id (fst (fst r))) (map_option gi_url (snd r))"
proof -
  let ?g = "fst (fst r)"
  from r have "r \<in> set (group_joins d)" by simp
  then obtain g where g: "g \<in> set (Groups d)" and rg: "r \<in> set (rows_of_group d g)"
    by (auto simp: group_joins_rows)
  then have gg: "?g = g" by (simp add: rows_of_group_fst)
  have io: "snd r \<in> set (outer (group_previews d (g_id g)))"
    using rg by (rule rows_of_group_snd)
  have "filter (\<lambda>x. map_option m_id (snd (fst x)) \<noteq> None)
          (filter (\<lambda>x. group_key x = group_key r) (filter W' (group_joins d)))
        = filter (\<lambda>x. g_id (fst (fst x)) = g_id g \<and>
             ((map_option m_id (snd (fst x)) \<noteq> None \<and> W (fst (fst x)) (snd (fst x))) \<and>
              map_option gi_url (snd x) = map_option gi_url (snd r)))
            (concat (map (rows_of_group d) (Groups d)))"
    unfolding filter_filter group_joins_rows
    by (rule filter_cong) (auto simp: group_key_def W gg)
  also have "\<dots> = filter (\<lambda>x. (map_option m_id (snd (fst x)) \<noteq> None \<and> W (fst (fst x)) (snd (fst x))) \<and>
              map_option gi_url (snd x) = map_option gi_url (snd r)) (rows_of_group d g)"
    by (rule filter_group_rows[OF pk g])
  also have "\<dots> = filter (\<lambda>x. (map_option m_id (snd (fst x)) \<noteq> None \<and> W g (snd (fst x))) \<and>
              map_option gi_url (snd x) = map_option gi_url (snd r)) (rows_of_group d g)"
    by (rule filter_cong) (auto dest: rows_of_group_fst)
  finally have F: "filter (\<lambda>x. map_option m_id (snd (fst x)) \<noteq> None)
          (filter (\<lambda>x. group_key x = group_key r) (filter W' (group_joins d)))
        = filter (\<lambda>x. (map_option m_id (snd (fst x)) \<noteq> None \<and> W g (snd (fst x))) \<and>
              map_option gi_url (snd x) = map_option gi_url (snd r)) (rows_of_group d g)" .
  have "COUNT (\<lambda>x. map_option m_id (snd (fst x)))
           (filter (\<lambda>x. group_key x = group_key r) (filter W' (group_joins d)))
      = length (filter (\<lambda>mo. map_option m_id mo \<noteq> None \<and> W g mo) (outer (group_members d (g_id g))))
        * length (filter (\<lambda>x. map_option gi_url x = map_option gi_url (snd r)) (outer (group_previews d (g_id g))))"
    unfolding COUNT_def F rows_of_group_def by (rule count_product)
  then show ?thesis
    by (simp only: count_outer_members count_outer_previews[OF io] gg preview_multiplicity_def)
qed

text \<open>
  What the listing's \<^verbatim>\<open>numMembers\<close> is: the number of Membership rows of the group,
  times the number of preview images of the group that carry the entry's url.
\<close>

lemma GET_groups_numMembers:
  assumes pk: "distinct (map g_id (Groups d))" and e: "e \<in> set (GET_groups d)"
  shows "numMembers e = Membership_count d (g_id (en_group e))
           * preview_multiplicity d (g_id (en_group e)) (previewImage e)"
proof -
  from GET_groups_origin[OF e] obtain r g where r: "r \<in> set (filter (\<lambda>r. True) (group_joins d))"
    and rg: "r \<in> set (rows_of_group d g)" and eg: "en_group e = g"
    and pv: "previewImage e = map_option gi_url (snd r)"
    and n: "numMembers e = COUNT (\<lambda>x. map_option m_id (snd (fst x)))
        (filter (\<lambda>x. group_key x = group_key r) (filter (\<lambda>r. True) (group_joins d)))"
    by (rule group_select_origin)
  have gg: "fst (fst r) = g" using rg by (rule rows_of_group_fst)
  from bucket_count[OF pk r, of "\<lambda>g mo. True"] n
  show ?thesis by (simp add: gg eg pv Membership_count_def group_members_def)
qed

lemma length_filter_distinct_key:
  "distinct (map f xs) \<Longrightarrow> p \<in> set xs \<Longrightarrow> length (filter (\<lambda>q. f q = f p) xs) = Suc 0"
proof (induction xs)
  case Nil
  then show ?case by simp
next
  case (Cons a xs)
  show ?case
  proof (cases "a = p")
    case True
    with Cons.prems have "f p \<notin> f ` set xs" by simp
    then have "\<forall>q \<in> set xs. f q \<noteq> f p" by (metis image_eqI)
    then have "filter (\<lambda>q. f q = f p) xs = []" by (simp add: filter_empty_conv)
    with True show ?thesis by simp
  next
    case False
    with Cons.prems have "p \<in> set xs" "f a \<noteq> f p" "distinct (map f xs)" by auto
    with Cons.IH show ?thesis by simp
  qed
qed

lemma preview_multiplicity_distinct:
  assumes "distinct (map gi_url (group_previews d gid))"
    and "u = None \<or> (\<exists>p \<in> set (group_previews d gid). u = Some (gi_url p))"
  shows "preview_multiplicity d gid u = 1"
proof (cases u)
  case None
  then show ?thesis by (simp add: preview_multiplicity_def)
next
  case (Some x)
  with assms(2) obtain p where p: "p \<in> set (group_previews d gid)" and x: "x = gi_url p" by auto
  from length_filter_distinct_key[OF assms(1) p] Some x show ?thesis
    by (simp add: preview_multiplicity_def)
qed

lemma entry_preview_cases:
  assumes "io \<in> set (outer ps)"
  shows "map_option gi_url io = None \<or> (\<exists>p \<in> set ps. map_option gi_url io = Some (gi_url p))"
  using assms by (auto simp: outer_def split: if_splits)

text \<open>With at most one preview image per url, the listing's count is the Membership count.\<close>

lemma GET_groups_numMembers_distinct_urls:
  assumes pk: "distinct (map g_id (Groups d))" and e: "e \<in> set (GET_groups d)"
    and urls: "distinct (map gi_url (group_previews d (g_id (en_group e))))"
  shows "numMembers e = Membership_count d (g_id (en_group e))"
proof -
  from GET_groups_origin[OF e] obtain r g where
    rg: "r \<in> set (rows_of_group d g)" and eg: "en_group e = g"
    and pv: "previewImage e = map_option gi_url (snd r)"
    by (rule group_select_origin)
  from entry_preview_cases[OF rows_of_group_snd[OF rg]] pv eg
  have "previewImage e = None
      \<or> (\<exists>p \<in> set (group_previews d (g_id (en_group e))). previewImage e = Some (gi_url p))"
    by simp
  from preview_multiplicity_distinct[OF urls this] GET_groups_numMembers[OF pk e]
  show ?thesis by simp
qed

subsection \<open>The group listing\<close>

text \<open>
  C1.  The claim: for every group of the listing of GET /groups, \<^verbatim>\<open>numMembers\<close> is the
  number of Membership rows with the group's id, also with GroupImage rows joined in.
  The route at a group with one Membership row whose one preview image was attached
  twice: the two joined image rows fall into one bucket and the listing reports two
  members, while the store holds one.  (By \<open>GET_groups_numMembers\<close> the count is
  multiplied by the number of preview images of the group with the entry's url; by
  \<open>GET_groups_numMembers_distinct_urls\<close> it is right when no two share a url.)
\<close>

theorem GET_groups_numMembers_same_preview_twice:
  "map (\<lambda>e. (g_id (en_group e), numMembers e)) (GET_groups store_same_preview_twice) = [(1, 2)]
   \<and> Membership_count store_same_preview_twice 1 = 1
   \<and> map (\<lambda>e. (g_id (en_group e), numMembers e)) (GET_groups store_one_preview) = [(1, 1)]
   \<and> Memberships store_same_preview_twice = Memberships store_one_preview"
  by code_simp

text \<open>
  C2.  Every entry of the listing of GET /groups belongs to a group of the store.  If
  the group has no GroupImage row with \<^verbatim>\<open>preview = true\<close>, the entry's
  \<^verbatim>\<open>previewImage\<close> is null; if it has one, \<^verbatim>\<open>previewImage\<close> is the url of such a row.
  Every group of the store has an entry, and no id is listed twice.
\<close>

theorem GET_groups_previewImage:
  "(\<forall>e \<in> set (GET_groups d).
      en_group e \<in> set (Groups d)
    \<and> (group_previews d (g_id (en_group e)) = [] \<longrightarrow> previewImage e = None)
    \<and> (group_previews d (g_id (en_group e)) \<noteq> [] \<longrightarrow>
         (\<exists>p \<in> set (group_previews d (g_id (en_group e))). previewImage e = Some (gi_url p))))
   \<and> (\<forall>g \<in> set (Groups d). \<exists>e \<in> set (GET_groups d). g_id (en_group e) = g_id g)
   \<and> distinct (map (\<lambda>e. g_id (en_group e)) (GET_groups d))"
proof (intro conjI ballI)
  fix e assume e: "e \<in> set (GET_groups d)"
  from GET_groups_origin[OF e] obtain r g where g: "g \<in> set (Groups d)"
    and rg: "r \<in> set (rows_of_group d g)" and eg: "en_group e = g"
    and pv: "previewImage e = map_option gi_url (snd r)"
    by (rule group_select_origin)
  from g eg show "en_group e \<in> set (Groups d)" by simp
  from preview_of_row[OF rows_of_group_snd[OF rg]] pv eg
  show "group_previews d (g_id (en_group e)) = [] \<longrightarrow> previewImage e = None"
    and "group_previews d (g_id (en_group e)) \<noteq> [] \<longrightarrow>
         (\<exists>p \<in> set (group_previews d (g_id (en_group e))). previewImage e = Some (gi_url p))"
    by simp_all
next
  fix g assume "g \<in> set (Groups d)"
  from GET_groups_covers[OF this] show "\<exists>e \<in> set (GET_groups d). g_id (en_group e) = g_id g"
    by auto
next
  show "distinct (map (\<lambda>e. g_id (en_group e)) (GET_groups d))"
    unfolding GET_groups_def by (rule groupJoinData_distinct)
qed

theorem GET_groups_previewImage_witness:
  "map (\<lambda>e. (g_id (en_group e), previewImage e)) (GET_groups store_two_groups)
     = [(1, Some ''a.png''), (2, None)]
   \<and> map gi_url (group_previews store_two_groups 1) = [''a.png'']
   \<and> group_previews store_two_groups 2 = []
   \<and> list_all (\<lambda>e. en_group e \<in> set (Groups store_two_groups)) (GET_groups store_two_groups)
   \<and> distinct (map (\<lambda>e. g_id (en_group e)) (GET_groups store_two_groups))"
proof -
  have "map (\<lambda>e. (g_id (en_group e), previewImage e)) (GET_groups store_two_groups)
     = [(1, Some ''a.png''), (2, None)]"
    by code_simp
  moreover have "map gi_url (group_previews store_two_groups 1) = [''a.png'']"
    by code_simp
  moreover have "group_previews store_two_groups 2 = []"
    by code_simp
  moreover from GET_groups_previewImage[of store_two_groups]
  have "list_all (\<lambda>e. en_group e \<in> set (Groups store_two_groups)) (GET_groups store_two_groups)"
    unfolding list_all_iff by blast
  moreover from GET_groups_previewImage[of store_two_groups]
  have "distinct (map (\<lambda>e. g_id (en_group e)) (GET_groups store_two_groups))"
    by blast
  ultimately show ?thesis by blast
qed

subsection \<open>The current user's groups\<close>

lemma current_groups1_origin:
  assumes "e \<in> set (current_groups1 uid d)"
  shows "e \<in> set (map group_select
           (group_by group_key (filter (current_where uid) (group_joins d))))"
proof -
  have "set (current_groups1 uid d)
        \<subseteq> set (sort_key (\<lambda>e. g_id (en_group e))
            (map group_select (group_by group_key (filter (current_where uid) (group_joins d)))))"
    unfolding current_groups1_def by (rule groupJoinData_subset)
  with assms show ?thesis by auto
qed

lemma current_groups1_numMembers:
  assumes pk: "distinct (map g_id (Groups d))" and e: "e \<in> set (current_groups1 uid d)"
  shows "numMembers e =
           (if g_organizerId (en_group e) = uid then Membership_count d (g_id (en_group e))
            else length (filter (\<lambda>m. m_userId m = uid) (group_members d (g_id (en_group e)))))
           * preview_multiplicity d (g_id (en_group e)) (previewImage e)"
proof -
  from current_groups1_origin[OF e] obtain r g
    where r: "r \<in> set (filter (current_where uid) (group_joins d))"
    and rg: "r \<in> set (rows_of_group d g)" and eg: "en_group e = g"
    and pv: "previewImage e = map_option gi_url (snd r)"
    and n: "numMembers e = COUNT (\<lambda>x. map_option m_id (snd (fst x)))
        (filter (\<lambda>x. group_key x = group_key r) (filter (current_where uid) (group_joins d)))"
    by (rule group_select_origin)
  have gg: "fst (fst r) = g" using rg by (rule rows_of_group_fst)
  have W: "\<And>x. current_where uid x =
      (\<lambda>g mo. g_organizerId g = uid \<or> (case mo of None \<Rightarrow> False | Some m \<Rightarrow> m_userId m = uid))
        (fst (fst x)) (snd (fst x))"
    by (simp add: current_where_def)
  from bucket_count[OF pk r W] n
  show ?thesis by (simp add: gg eg pv Membership_count_def group_members_def)
qed

lemma current_groups1_preview:
  assumes e: "e \<in> set (current_groups1 uid d)"
  shows "previewImage e = None
      \<or> (\<exists>p \<in> set (group_previews d (g_id (en_group e))). previewImage e = Some (gi_url p))"
proof -
  from current_groups1_origin[OF e] obtain r g where
    rg: "r \<in> set (rows_of_group d g)" and eg: "en_group e = g"
    and pv: "previewImage e = map_option gi_url (snd r)"
    by (rule group_select_origin)
  from entry_preview_cases[OF rows_of_group_snd[OF rg]] pv eg show ?thesis by simp
qed

text \<open>
  C5.  The claim: in GET /groups/current the count of the second query equals the
  aggregate of the first for every returned group, so that the second query could be
  removed.  A requester who is a member, not the organizer, of a group with two
  Membership rows: the where clause of the first query keeps only the joined rows of
  the requester's own membership, its aggregate is 1, and the second query counts 2;
  the response with and without the second query differ.
\<close>

theorem GET_current_second_query_counterexample:
  "map en_group (current_groups1 2 store_two_groups) = [example_group 1 1]
   \<and> map numMembers (current_groups1 2 store_two_groups) = [1]
   \<and> Membership_count store_two_groups 1 = 2
   \<and> map_sum status (map numMembers)
         (GET_current (request_of (Some 2) 0) store_two_groups) = Inr [2]
   \<and> map_sum status (map numMembers)
         (GET_current_single_query (request_of (Some 2) 0) store_two_groups) = Inr [1]"
proof -
  have "map en_group (current_groups1 2 store_two_groups) = [example_group 1 1]"
    by code_simp
  moreover have "map numMembers (current_groups1 2 store_two_groups) = [1]"
    by code_simp
  moreover have "Membership_count store_two_groups 1 = 2"
    by code_simp
  moreover have "map_sum status (map numMembers)
         (GET_current (request_of (Some 2) 0) store_two_groups) = Inr [2]"
    by code_simp
  moreover have "map_sum status (map numMembers)
         (GET_current_single_query (request_of (Some 2) 0) store_two_groups) = Inr [1]"
    by code_simp
  ultimately show ?thesis by blast
qed

text \<open>
  C5, amended.  For an authenticated requester the response of GET /groups/current is
  the list of the first query with \<^verbatim>\<open>numMembers\<close> overwritten by the count of all
  Membership rows of the group.  Where no two preview images of the group share a url,
  the aggregate of the first query equals that count for a group the requester
  organizes, and for any other returned group it is the number of the requester's own
  Membership rows in the group.
\<close>

theorem GET_current_second_query:
  assumes pk: "distinct (map g_id (Groups d))" and u: "user_id req = Some uid"
  shows "GET_current req d
           = Inr (map (\<lambda>e. e\<lparr>numMembers := Membership_count d (g_id (en_group e))\<rparr>)
                    (current_groups1 uid d))
       \<and> (\<forall>e \<in> set (current_groups1 uid d).
            distinct (map gi_url (group_previews d (g_id (en_group e)))) \<longrightarrow>
            numMembers e =
              (if g_organizerId (en_group e) = uid then Membership_count d (g_id (en_group e))
               else length (filter (\<lambda>m. m_userId m = uid) (group_members d (g_id (en_group e))))))"
proof (intro conjI ballI impI)
  show "GET_current req d
           = Inr (map (\<lambda>e. e\<lparr>numMembers := Membership_count d (g_id (en_group e))\<rparr>)
                    (current_groups1 uid d))"
    using u by (simp add: GET_current_def requireAuth_def)
next
  fix e assume e: "e \<in> set (current_groups1 uid d)"
    and urls: "distinct (map gi_url (group_previews d (g_id (en_group e))))"
  from preview_multiplicity_distinct[OF urls current_groups1_preview[OF e]]
    current_groups1_numMembers[OF pk e]
  show "numMembers e =
              (if g_organizerId (en_group e) = uid then Membership_count d (g_id (en_group e))
               else length (filter (\<lambda>m. m_userId m = uid) (group_members d (g_id (en_group e)))))"
    by simp
qed

theorem GET_current_second_query_witness:
  "distinct (map g_id (Groups store_two_groups))
   \<and> user_id (request_of (Some 3) 0) = Some 3
   \<and> GET_current (request_of (Some 3) 0) store_two_groups
       = Inr (map (\<lambda>e. e\<lparr>numMembers := Membership_count store_two_groups (g_id (en_group e))\<rparr>)
                (current_groups1 3 store_two_groups))
   \<and> map (\<lambda>e. (g_id (en_group e), g_organizerId (en_group e), numMembers e))
         (current_groups1 3 store_two_groups) = [(1, 1, 1), (2, 3, 0)]
   \<and> list_all (\<lambda>e. distinct (map gi_url (group_previews store_two_groups (g_id (en_group e)))))
         (current_groups1 3 store_two_groups)
   \<and> list_all (\<lambda>e. numMembers e =
           (if g_organizerId (en_group e) = 3
            then Membership_count store_two_groups (g_id (en_group e))
            else length (filter (\<lambda>m. m_userId m = 3)
                   (group_members store_two_groups (g_id (en_group e))))))
         (current_groups1 3 store_two_groups)
   \<and> Membership_count store_two_groups 1 = 2
   \<and> Membership_count store_two_groups 2 = 0"
proof -
  have pk: "distinct (map g_id (Groups store_two_groups))"
    by code_simp
  have u: "user_id (request_of (Some 3) 0) = Some 3"
    by code_simp
  note second = GET_current_second_query[OF pk u]
  from second
  have "GET_current (request_of (Some 3) 0) store_two_groups
       = Inr (map (\<lambda>e. e\<lparr>numMembers := Membership_count store_two_groups (g_id (en_group e))\<rparr>)
                (current_groups1 3 store_two_groups))"
    by blast
  moreover have "map (\<lambda>e. (g_id (en_group e), g_organizerId (en_group e), numMembers e))
         (current_groups1 3 store_two_groups) = [(1, 1, 1), (2, 3, 0)]"
    by code_simp
  moreover have urls: "list_all
      (\<lambda>e. distinct (map gi_url (group_previews store_two_groups (g_id (en_group e)))))
      (current_groups1 3 store_two_groups)"
    by code_simp
  moreover from second urls
  have "list_all (\<lambda>e. numMembers e =
           (if g_organizerId (en_group e) = 3
            then Membership_count store_two_groups (g_id (en_group e))
            else length (filter (\<lambda>m. m_userId m = 3)
                   (group_members store_two_groups (g_id (en_group e))))))
         (current_groups1 3 store_two_groups)"
    unfolding list_all_iff by blast
  moreover have "Membership_count store_two_groups 1 = 2"
    by code_simp
  moreover have "Membership_count store_two_groups 2 = 0"
    by code_simp
  ultimately show ?thesis using pk u by blast
qed

subsection \<open>Guards and validation of the mutation routes\<close>

lemma findByPk_id: "findByPk d k = Some g \<Longrightarrow> g_id g = k \<and> g \<in> set (Groups d)"
  by (auto simp: findByPk_def find_Some_iff)

lemma organizer_guards:
  "run_guards (requireAuth # groupExists # isOrganizer # gs) req d =
     (case user_id req of
        None \<Rightarrow> Some \<lparr>status = 401, errors = Map.empty\<rparr>
      | Some u \<Rightarrow>
          (case findByPk d (groupId req) of
             None \<Rightarrow> Some \<lparr>status = 404, errors = Map.empty\<rparr>
           | Some g \<Rightarrow>
               if g_organizerId g = u then run_guards gs req d
               else Some \<lparr>status = 403, errors = Map.empty\<rparr>))"
  by (auto simp: requireAuth_def groupExists_def isOrganizer_def split: option.splits)

lemma DELETE_group_cases:
  "DELETE_group req d =
     (case user_id req of
        None \<Rightarrow> (Inl \<lparr>status = 401, errors = Map.empty\<rparr>, d)
      | Some u \<Rightarrow>
          (case findByPk d (groupId req) of
             None \<Rightarrow> (Inl \<lparr>status = 404, errors = Map.empty\<rparr>, d)
           | Some g \<Rightarrow>
               if g_organizerId g = u
               then (Inr ''Successfully deleted'', destroy_group (groupId req) d)
               else (Inl \<lparr>status = 403, errors = Map.empty\<rparr>, d)))"
  unfolding DELETE_group_def organizer_guards
  by (auto split: option.splits dest: findByPk_id)

lemma PUT_group_cases:
  "PUT_group L now req d =
     (case user_id req of
        None \<Rightarrow> (Inl \<lparr>status = 401, errors = Map.empty\<rparr>, d)
      | Some u \<Rightarrow>
          (case findByPk d (groupId req) of
             None \<Rightarrow> (Inl \<lparr>status = 404, errors = Map.empty\<rparr>, d)
           | Some g \<Rightarrow>
               if g_organizerId g = u
               then (case handleValidationErrors (validationResult L validateGroup req) of
                       Some e \<Rightarrow> (Inl e, d)
                     | None \<Rightarrow>
                         if group_set (body req) g = g then (Inr g, d)
                         else
                           (Inr ((group_set (body req) g)\<lparr>g_updatedAt := now\<rparr>),
                            d\<lparr>Groups :=
                                map (\<lambda>x. if g_id x = groupId req
                                          then (group_set (body req) x)\<lparr>g_updatedAt := now\<rparr>
                                          else x)
                                  (Groups d)\<rparr>))
               else (Inl \<lparr>status = 403, errors = Map.empty\<rparr>, d)))"
  unfolding PUT_group_def organizer_guards
  by (auto simp: validate_def split: option.splits dest: findByPk_id)

lemma POST_group_image_cases:
  "POST_group_image C req d =
     (case user_id req of
        None \<Rightarrow> (Inl \<lparr>status = 401, errors = Map.empty\<rparr>, d)
      | Some u \<Rightarrow>
          (case findByPk d (groupId req) of
             None \<Rightarrow> (Inl \<lparr>status = 404, errors = Map.empty\<rparr>, d)
           | Some g \<Rightarrow>
               if g_organizerId g = u
               then (case C (body req ''url'') (body req ''preview'') of
                       None \<Rightarrow> (Inl server_error, d)
                     | Some c \<Rightarrow>
                         (Inr (Suc (GroupImages_seq d), fst c, snd c),
                          d\<lparr>GroupImages := GroupImages d @
                               [\<lparr>gi_id = Suc (GroupImages_seq d), gi_groupId = groupId req,
                                 gi_url = fst c, gi_preview = snd c\<rparr>],
                             GroupImages_seq := Suc (GroupImages_seq d)\<rparr>))
               else (Inl \<lparr>status = 403, errors = Map.empty\<rparr>, d)))"
  unfolding POST_group_image_def organizer_guards
  by (auto simp: Let_def split: option.splits)

lemma venue_guards:
  "run_guards (requireAuth # groupExists # isOrgOrCo # gs) req d =
     (case user_id req of
        None \<Rightarrow> Some \<lparr>status = 401, errors = Map.empty\<rparr>
      | Some u \<Rightarrow>
          (case findByPk d (groupId req) of
             None \<Rightarrow> Some \<lparr>status = 404, errors = Map.empty\<rparr>
           | Some g \<Rightarrow>
               if g_organizerId g = u
                  \<or> (\<exists>m \<in> set (Memberships d).
                        m_groupId m = groupId req \<and> m_userId m = u \<and> m_status m = ''co-host'')
               then run_guards gs req d
               else Some \<lparr>status = 403, errors = Map.empty\<rparr>))"
  by (auto simp: requireAuth_def groupExists_def isOrgOrCo_def list_ex_iff
      split: option.splits dest: findByPk_id)

lemma POST_venue_cases:
  "POST_venue L req d =
     (case user_id req of
        None \<Rightarrow> (Inl \<lparr>status = 401, errors = Map.empty\<rparr>, d)
      | Some u \<Rightarrow>
          (case findByPk d (groupId req) of
             None \<Rightarrow> (Inl \<lparr>status = 404, errors = Map.empty\<rparr>, d)
           | Some g \<Rightarrow>
               if g_organizerId g = u
                  \<or> (\<exists>m \<in> set (Memberships d).
                        m_groupId m = groupId req \<and> m_userId m = u \<and> m_status m = ''co-host'')
               then (case handleValidationErrors (validationResult L validateVenue req) of
                       Some e \<Rightarrow> (Inl e, d)
                     | None \<Rightarrow>
                         (Inr \<lparr>v_id = Suc (Venues_seq d), v_groupId = groupId req,
                               v_address = body req ''address'', v_city = body req ''city'',
                               v_state = body req ''state'', v_lat = body req ''lat'',
                               v_lng = body req ''lng''\<rparr>,
                          d\<lparr>Venues := Venues d @
                               [\<lparr>v_id = Suc (Venues_seq d), v_groupId = groupId req,
                                 v_address = body req ''address'', v_city = body req ''city'',
                                 v_state = body req ''state'', v_lat = body req ''lat'',
                                 v_lng = body req ''lng''\<rparr>],
                             Venues_seq := Suc (Venues_seq d)\<rparr>))
               else (Inl \<lparr>status = 403, errors = Map.empty\<rparr>, d)))"
  unfolding POST_venue_def venue_guards
  by (auto simp: validate_def Let_def split: option.splits)

lemma POST_groups_cases:
  "POST_groups L now req d =
     (case user_id req of
        None \<Rightarrow> (Inl \<lparr>status = 401, errors = Map.empty\<rparr>, d)
      | Some u \<Rightarrow>
          (case handleValidationErrors (validationResult L validateGroup req) of
             Some e \<Rightarrow> (Inl e, d)
           | None \<Rightarrow>
               (Inr \<lparr>g_id = Suc (Groups_seq d), g_organizerId = u,
                     g_name = body req ''name'', g_about = body req ''about'',
                     g_type = body req ''type'',
                     g_private = BOOLEAN_sanitize (body req ''private''),
                     g_city = body req ''city'', g_state = body req ''state'',
                     g_createdAt = now, g_updatedAt = now\<rparr>,
                d\<lparr>Groups := Groups d @
                     [\<lparr>g_id = Suc (Groups_seq d), g_organizerId = u,
                       g_name = body req ''name'', g_about = body req ''about'',
                       g_type = body req ''type'',
                       g_private = BOOLEAN_sanitize (body req ''private''),
                       g_city = body req ''city'', g_state = body req ''state'',
                       g_createdAt = now, g_updatedAt = now\<rparr>],
                   Groups_seq := Suc (Groups_seq d)\<rparr>)))"
  unfolding POST_groups_def
  by (auto simp: requireAuth_def validate_def Let_def split: option.splits)

lemma handleValidationErrors_status:
  "handleValidationErrors es = Some e \<Longrightarrow> status e = 400"
  by (auto simp: handleValidationErrors_def split: if_splits)


lemma map_of_rev_None_iff: "map_of (rev es) k = None \<longleftrightarrow> k \<notin> fst ` set es"
  by (simp add: map_of_eq_None_iff)

lemma handleValidationErrors_Some:
  "es \<noteq> [] \<Longrightarrow> handleValidationErrors es = Some \<lparr>status = 400, errors = map_of (rev es)\<rparr>"
  by (simp add: handleValidationErrors_def)

lemma validationResult_validateVenue:
  "validationResult L validateVenue req =
     run_check L (body req) (''address'', [(Exists True, Some ''Street address is required'')])
   @ run_check L (body req) (''city'', [(Exists True, Some ''City is required'')])
   @ run_check L (body req) (''state'', [(Exists True, Some ''State is required'')])
   @ run_check L (body req) (''lat'', [(Exists True, None),
                 (IsFloat (- 89) 91, Some ''Latitude is not valid'')])
   @ run_check L (body req) (''lng'', [(Exists True, None),
                 (IsFloat (- 179) 181, Some ''Longitude is not valid'')])"
  by (simp add: validationResult_def validateVenue_def)


text \<open>The two checks of a coordinate on a JSON number.\<close>

lemma coordinate_check_number:
  "run_check L b (f, [(Exists True, None), (IsFloat lo hi, Some msg)]) = [] \<longleftrightarrow>
     truthy (b f)
     \<and> (case float_literal L (toString L (b f)) of None \<Rightarrow> False | Some x \<Rightarrow> lo < x \<and> x < hi)"
  by (auto simp: run_check_def)

lemma lat_check_zero:
  assumes "b ''lat'' = JNum 0"
  shows "(''lat'', ''Invalid value'') \<in> set (run_check L b (''lat'', [(Exists True, None),
                 (IsFloat (- 89) 91, Some ''Latitude is not valid'')]))"
  using assms by (simp add: run_check_def)

text \<open>
  A JSON number other than 0 that the runtime prints and reads back passes the latitude
  checks exactly when it lies strictly between -89 and 91.
\<close>

lemma lat_check_nonzero:
  assumes "b ''lat'' = JNum n" and "n \<noteq> 0" and "float_literal L (String_number L n) = Some n"
  shows "run_check L b (''lat'', [(Exists True, None),
                 (IsFloat (- 89) 91, Some ''Latitude is not valid'')]) = []
         \<longleftrightarrow> - 89 < n \<and> n < 91"
  using assms by (simp add: coordinate_check_number)

lemma venue_guards_organizer:
  assumes "user_id req = Some u" "findByPk d (groupId req) = Some g" "g_organizerId g = u"
  shows "run_guards [requireAuth, groupExists, isOrgOrCo, validate L validateVenue] req d
         = handleValidationErrors (validationResult L validateVenue req)"
  using assms
  by (simp add: requireAuth_def groupExists_def isOrgOrCo_def validate_def split: option.splits)






text \<open>What each mutation route answers at each stage of its guards.\<close>

lemma DELETE_group_refusals:
  "user_id req = None \<Longrightarrow>
     status_of (fst (DELETE_group req d)) = 401 \<and> snd (DELETE_group req d) = d"
  "user_id req \<noteq> None \<Longrightarrow> findByPk d (groupId req) = None \<Longrightarrow>
     status_of (fst (DELETE_group req d)) = 404 \<and> snd (DELETE_group req d) = d"
  "user_id req = Some u \<Longrightarrow> findByPk d (groupId req) = Some g \<Longrightarrow> g_organizerId g \<noteq> u \<Longrightarrow>
     status_of (fst (DELETE_group req d)) = 403 \<and> snd (DELETE_group req d) = d"
  "user_id req = Some u \<Longrightarrow> findByPk d (groupId req) = Some g \<Longrightarrow> g_organizerId g = u \<Longrightarrow>
     DELETE_group req d = (Inr ''Successfully deleted'', destroy_group (groupId req) d)"
  "status_of (fst (DELETE_group req d)) = 401 \<Longrightarrow> user_id req = None"
  "status_of (fst (DELETE_group req d)) = 404 \<Longrightarrow>
     user_id req \<noteq> None \<and> findByPk d (groupId req) = None"
  "status_of (fst (DELETE_group req d)) = 403 \<Longrightarrow>
     user_id req \<noteq> None \<and> findByPk d (groupId req) \<noteq> None"
  by (auto simp: DELETE_group_cases status_of_def split: option.splits if_splits)

lemma PUT_group_refusals:
  "user_id req = None \<Longrightarrow>
     status_of (fst (PUT_group L now req d)) = 401 \<and> snd (PUT_group L now req d) = d"
  "user_id req \<noteq> None \<Longrightarrow> findByPk d (groupId req) = None \<Longrightarrow>
     status_of (fst (PUT_group L now req d)) = 404 \<and> snd (PUT_group L now req d) = d"
  "user_id req = Some u \<Longrightarrow> findByPk d (groupId req) = Some g \<Longrightarrow> g_organizerId g \<noteq> u \<Longrightarrow>
     status_of (fst (PUT_group L now req d)) = 403 \<and> snd (PUT_group L now req d) = d"
  "user_id req = Some u \<Longrightarrow> findByPk d (groupId req) = Some g \<Longrightarrow> g_organizerId g = u \<Longrightarrow>
     status_of (fst (PUT_group L now req d)) \<noteq> 401
     \<and> status_of (fst (PUT_group L now req d)) \<noteq> 404
     \<and> status_of (fst (PUT_group L now req d)) \<noteq> 403"
  "status_of (fst (PUT_group L now req d)) = 401 \<Longrightarrow> user_id req = None"
  "status_of (fst (PUT_group L now req d)) = 404 \<Longrightarrow>
     user_id req \<noteq> None \<and> findByPk d (groupId req) = None"
  "status_of (fst (PUT_group L now req d)) = 403 \<Longrightarrow>
     user_id req \<noteq> None \<and> findByPk d (groupId req) \<noteq> None"
  by (auto simp: PUT_group_cases status_of_def split: option.splits if_splits
      dest: handleValidationErrors_status)

lemma POST_group_image_refusals:
  "user_id req = None \<Longrightarrow>
     status_of (fst (POST_group_image C req d)) = 401 \<and> snd (POST_group_image C req d) = d"
  "user_id req \<noteq> None \<Longrightarrow> findByPk d (groupId req) = None \<Longrightarrow>
     status_of (fst (POST_group_image C req d)) = 404 \<and> snd (POST_group_image C req d) = d"
  "user_id req = Some u \<Longrightarrow> findByPk d (groupId req) = Some g \<Longrightarrow> g_organizerId g \<noteq> u \<Longrightarrow>
     status_of (fst (POST_group_image C req d)) = 403 \<and> snd (POST_group_image C req d) = d"
  "user_id req = Some u \<Longrightarrow> findByPk d (groupId req) = Some g \<Longrightarrow> g_organizerId g = u \<Longrightarrow>
     status_of (fst (POST_group_image C req d)) \<noteq> 401
     \<and> status_of (fst (POST_group_image C req d)) \<noteq> 404
     \<and> status_of (fst (POST_group_image C req d)) \<noteq> 403"
  "status_of (fst (POST_group_image C req d)) = 401 \<Longrightarrow> user_id req = None"
  "status_of (fst (POST_group_image C req d)) = 404 \<Longrightarrow>
     user_id req \<noteq> None \<and> findByPk d (groupId req) = None"
  "status_of (fst (POST_group_image C req d)) = 403 \<Longrightarrow>
     user_id req \<noteq> None \<and> findByPk d (groupId req) \<noteq> None"
  by (auto simp: POST_group_image_cases status_of_def server_error_def
      split: option.splits if_splits)

lemma POST_venue_refusals:
  "user_id req = None \<Longrightarrow>
     status_of (fst (POST_venue L req d)) = 401 \<and> snd (POST_venue L req d) = d"
  "user_id req \<noteq> None \<Longrightarrow> findByPk d (groupId req) = None \<Longrightarrow>
     status_of (fst (POST_venue L req d)) = 404 \<and> snd (POST_venue L req d) = d"
  "user_id req = Some u \<Longrightarrow> findByPk d (groupId req) = Some g \<Longrightarrow> g_organizerId g \<noteq> u \<Longrightarrow>
     \<forall>m \<in> set (Memberships d).
        \<not> (m_groupId m = groupId req \<and> m_userId m = u \<and> m_status m = ''co-host'') \<Longrightarrow>
     status_of (fst (POST_venue L req d)) = 403 \<and> snd (POST_venue L req d) = d"
  "user_id req = Some u \<Longrightarrow> findByPk d (groupId req) = Some g \<Longrightarrow>
     g_organizerId g = u
     \<or> (\<exists>m \<in> set (Memberships d).
          m_groupId m = groupId req \<and> m_userId m = u \<and> m_status m = ''co-host'') \<Longrightarrow>
     status_of (fst (POST_venue L req d)) \<noteq> 401
     \<and> status_of (fst (POST_venue L req d)) \<noteq> 404
     \<and> status_of (fst (POST_venue L req d)) \<noteq> 403"
  "status_of (fst (POST_venue L req d)) = 401 \<Longrightarrow> user_id req = None"
  "status_of (fst (POST_venue L req d)) = 404 \<Longrightarrow>
     user_id req \<noteq> None \<and> findByPk d (groupId req) = None"
  "status_of (fst (POST_venue L req d)) = 403 \<Longrightarrow>
     user_id req \<noteq> None \<and> findByPk d (groupId req) \<noteq> None"
  by (auto simp: POST_venue_cases status_of_def split: option.splits if_splits
      dest: handleValidationErrors_status)

lemma POST_groups_refusals:
  "user_id req = None \<Longrightarrow>
     status_of (fst (POST_groups L now req d)) = 401 \<and> snd (POST_groups L now req d) = d"
  "status_of (fst (POST_groups L now req d)) = 401 \<Longrightarrow> user_id req = None"
  "status_of (fst (POST_groups L now req d)) \<noteq> 404"
  "status_of (fst (POST_groups L now req d)) \<noteq> 403"
  by (auto simp: POST_groups_cases status_of_def split: option.splits if_splits
      dest: handleValidationErrors_status)

text \<open>
  C4.  The five routes that change a group or what belongs to it: POST /groups,
  POST /groups/:groupId/images, PUT /groups/:groupId, DELETE /groups/:groupId and
  POST /groups/:groupId/venues.  Each runs \<^verbatim>\<open>requireAuth\<close> first: without an
  authenticated user the response is 401.  The four routes with a \<^verbatim>\<open>:groupId\<close> then run
  \<^verbatim>\<open>groupExists\<close>: with a user and no Group row of that id the response is 404, whoever
  asks.  Then comes the authorization: with a user, an existing group and a user who is
  not its organizer the response of the images route, of PUT and of DELETE is 403; that
  of the venues route is 403 when the user is not a co-host of the group either, and
  is none of 401, 404, 403 for a co-host.  The organizer gets none of the three from any
  route, and the organizer's DELETE succeeds.  None of the refusals changes the store.
  Conversely a 401 is only produced without a user, a 404 only for a user and a missing
  group, a 403 only for a user and an existing group; POST /groups, which has no
  \<^verbatim>\<open>:groupId\<close>, produces neither 404 nor 403.
\<close>

theorem mutation_guards_order:
  "(user_id req = None \<longrightarrow>
      status_of (fst (DELETE_group req d)) = 401 \<and> snd (DELETE_group req d) = d
    \<and> status_of (fst (PUT_group L now req d)) = 401 \<and> snd (PUT_group L now req d) = d
    \<and> status_of (fst (POST_group_image C req d)) = 401 \<and> snd (POST_group_image C req d) = d
    \<and> status_of (fst (POST_venue L req d)) = 401 \<and> snd (POST_venue L req d) = d
    \<and> status_of (fst (POST_groups L now req d)) = 401 \<and> snd (POST_groups L now req d) = d)
 \<and> (user_id req \<noteq> None \<and> findByPk d (groupId req) = None \<longrightarrow>
      status_of (fst (DELETE_group req d)) = 404 \<and> snd (DELETE_group req d) = d
    \<and> status_of (fst (PUT_group L now req d)) = 404 \<and> snd (PUT_group L now req d) = d
    \<and> status_of (fst (POST_group_image C req d)) = 404 \<and> snd (POST_group_image C req d) = d
    \<and> status_of (fst (POST_venue L req d)) = 404 \<and> snd (POST_venue L req d) = d)
 \<and> (\<forall>u g. user_id req = Some u \<and> findByPk d (groupId req) = Some g \<and> g_organizerId g \<noteq> u \<longrightarrow>
      status_of (fst (DELETE_group req d)) = 403 \<and> snd (DELETE_group req d) = d
    \<and> status_of (fst (PUT_group L now req d)) = 403 \<and> snd (PUT_group L now req d) = d
    \<and> status_of (fst (POST_group_image C req d)) = 403 \<and> snd (POST_group_image C req d) = d
    \<and> ((\<forall>m \<in> set (Memberships d).
           \<not> (m_groupId m = groupId req \<and> m_userId m = u \<and> m_status m = ''co-host'')) \<longrightarrow>
         status_of (fst (POST_venue L req d)) = 403 \<and> snd (POST_venue L req d) = d)
    \<and> ((\<exists>m \<in> set (Memberships d).
           m_groupId m = groupId req \<and> m_userId m = u \<and> m_status m = ''co-host'') \<longrightarrow>
         status_of (fst (POST_venue L req d)) \<noteq> 401
       \<and> status_of (fst (POST_venue L req d)) \<noteq> 404
       \<and> status_of (fst (POST_venue L req d)) \<noteq> 403))
 \<and> (\<forall>u g. user_id req = Some u \<and> findByPk d (groupId req) = Some g \<and> g_organizerId g = u \<longrightarrow>
      DELETE_group req d = (Inr ''Successfully deleted'', destroy_group (groupId req) d)
    \<and> status_of (fst (PUT_group L now req d)) \<noteq> 401
    \<and> status_of (fst (PUT_group L now req d)) \<noteq> 404
    \<and> status_of (fst (PUT_group L now req d)) \<noteq> 403
    \<and> status_of (fst (POST_group_image C req d)) \<noteq> 401
    \<and> status_of (fst (POST_group_image C req d)) \<noteq> 404
    \<and> status_of (fst (POST_group_image C req d)) \<noteq> 403
    \<and> status_of (fst (POST_venue L req d)) \<noteq> 401
    \<and> status_of (fst (POST_venue L req d)) \<noteq> 404
    \<and> status_of (fst (POST_venue L req d)) \<noteq> 403)
 \<and> (status_of (fst (DELETE_group req d)) = 403 \<or> status_of (fst (PUT_group L now req d)) = 403
    \<or> status_of (fst (POST_group_image C req d)) = 403
    \<or> status_of (fst (POST_venue L req d)) = 403 \<longrightarrow>
      user_id req \<noteq> None \<and> findByPk d (groupId req) \<noteq> None)
 \<and> (status_of (fst (DELETE_group req d)) = 404 \<or> status_of (fst (PUT_group L now req d)) = 404
    \<or> status_of (fst (POST_group_image C req d)) = 404
    \<or> status_of (fst (POST_venue L req d)) = 404 \<longrightarrow>
      user_id req \<noteq> None \<and> findByPk d (groupId req) = None)
 \<and> (status_of (fst (DELETE_group req d)) = 401 \<or> status_of (fst (PUT_group L now req d)) = 401
    \<or> status_of (fst (POST_group_image C req d)) = 401
    \<or> status_of (fst (POST_venue L req d)) = 401
    \<or> status_of (fst (POST_groups L now req d)) = 401 \<longrightarrow>
      user_id req = None)
 \<and> status_of (fst (POST_groups L now req d)) \<noteq> 404
 \<and> status_of (fst (POST_groups L now req d)) \<noteq> 403"
proof -
  note D = DELETE_group_refusals[where req = req and d = d]
  note P = PUT_group_refusals[where req = req and d = d and L = L and now = now]
  note I = POST_group_image_refusals[where req = req and d = d and C = C]
  note V = POST_venue_refusals[where req = req and d = d and L = L]
  note G = POST_groups_refusals[where req = req and d = d and L = L and now = now]
  have none: "user_id req = None \<longrightarrow>
      status_of (fst (DELETE_group req d)) = 401 \<and> snd (DELETE_group req d) = d
    \<and> status_of (fst (PUT_group L now req d)) = 401 \<and> snd (PUT_group L now req d) = d
    \<and> status_of (fst (POST_group_image C req d)) = 401 \<and> snd (POST_group_image C req d) = d
    \<and> status_of (fst (POST_venue L req d)) = 401 \<and> snd (POST_venue L req d) = d
    \<and> status_of (fst (POST_groups L now req d)) = 401 \<and> snd (POST_groups L now req d) = d"
    using D(1) P(1) I(1) V(1) G(1) by blast
  have missing: "user_id req \<noteq> None \<and> findByPk d (groupId req) = None \<longrightarrow>
      status_of (fst (DELETE_group req d)) = 404 \<and> snd (DELETE_group req d) = d
    \<and> status_of (fst (PUT_group L now req d)) = 404 \<and> snd (PUT_group L now req d) = d
    \<and> status_of (fst (POST_group_image C req d)) = 404 \<and> snd (POST_group_image C req d) = d
    \<and> status_of (fst (POST_venue L req d)) = 404 \<and> snd (POST_venue L req d) = d"
    using D(2) P(2) I(2) V(2) by blast
  have other: "\<forall>u g. user_id req = Some u \<and> findByPk d (groupId req) = Some g
        \<and> g_organizerId g \<noteq> u \<longrightarrow>
      status_of (fst (DELETE_group req d)) = 403 \<and> snd (DELETE_group req d) = d
    \<and> status_of (fst (PUT_group L now req d)) = 403 \<and> snd (PUT_group L now req d) = d
    \<and> status_of (fst (POST_group_image C req d)) = 403 \<and> snd (POST_group_image C req d) = d
    \<and> ((\<forall>m \<in> set (Memberships d).
           \<not> (m_groupId m = groupId req \<and> m_userId m = u \<and> m_status m = ''co-host'')) \<longrightarrow>
         status_of (fst (POST_venue L req d)) = 403 \<and> snd (POST_venue L req d) = d)
    \<and> ((\<exists>m \<in> set (Memberships d).
           m_groupId m = groupId req \<and> m_userId m = u \<and> m_status m = ''co-host'') \<longrightarrow>
         status_of (fst (POST_venue L req d)) \<noteq> 401
       \<and> status_of (fst (POST_venue L req d)) \<noteq> 404
       \<and> status_of (fst (POST_venue L req d)) \<noteq> 403)"
  proof (intro allI impI)
    fix u g
    assume a: "user_id req = Some u \<and> findByPk d (groupId req) = Some g \<and> g_organizerId g \<noteq> u"
    then have u: "user_id req = Some u" and g: "findByPk d (groupId req) = Some g"
      and n: "g_organizerId g \<noteq> u" by simp_all
    from D(3)[OF u g n] P(3)[OF u g n] I(3)[OF u g n] V(3)[OF u g n] V(4)[OF u g]
    show "status_of (fst (DELETE_group req d)) = 403 \<and> snd (DELETE_group req d) = d
    \<and> status_of (fst (PUT_group L now req d)) = 403 \<and> snd (PUT_group L now req d) = d
    \<and> status_of (fst (POST_group_image C req d)) = 403 \<and> snd (POST_group_image C req d) = d
    \<and> ((\<forall>m \<in> set (Memberships d).
           \<not> (m_groupId m = groupId req \<and> m_userId m = u \<and> m_status m = ''co-host'')) \<longrightarrow>
         status_of (fst (POST_venue L req d)) = 403 \<and> snd (POST_venue L req d) = d)
    \<and> ((\<exists>m \<in> set (Memberships d).
           m_groupId m = groupId req \<and> m_userId m = u \<and> m_status m = ''co-host'') \<longrightarrow>
         status_of (fst (POST_venue L req d)) \<noteq> 401
       \<and> status_of (fst (POST_venue L req d)) \<noteq> 404
       \<and> status_of (fst (POST_venue L req d)) \<noteq> 403)"
      by blast
  qed
  have organizer: "\<forall>u g. user_id req = Some u \<and> findByPk d (groupId req) = Some g
        \<and> g_organizerId g = u \<longrightarrow>
      DELETE_group req d = (Inr ''Successfully deleted'', destroy_group (groupId req) d)
    \<and> status_of (fst (PUT_group L now req d)) \<noteq> 401
    \<and> status_of (fst (PUT_group L now req d)) \<noteq> 404
    \<and> status_of (fst (PUT_group L now req d)) \<noteq> 403
    \<and> status_of (fst (POST_group_image C req d)) \<noteq> 401
    \<and> status_of (fst (POST_group_image C req d)) \<noteq> 404
    \<and> status_of (fst (POST_group_image C req d)) \<noteq> 403
    \<and> status_of (fst (POST_venue L req d)) \<noteq> 401
    \<and> status_of (fst (POST_venue L req d)) \<noteq> 404
    \<and> status_of (fst (POST_venue L req d)) \<noteq> 403"
  proof (intro allI impI)
    fix u g
    assume a: "user_id req = Some u \<and> findByPk d (groupId req) = Some g \<and> g_organizerId g = u"
    then have u: "user_id req = Some u" and g: "findByPk d (groupId req) = Some g"
      and n: "g_organizerId g = u" by simp_all
    from D(4)[OF u g n] P(4)[OF u g n] I(4)[OF u g n] V(4)[OF u g] n
    show "DELETE_group req d = (Inr ''Successfully deleted'', destroy_group (groupId req) d)
    \<and> status_of (fst (PUT_group L now req d)) \<noteq> 401
    \<and> status_of (fst (PUT_group L now req d)) \<noteq> 404
    \<and> status_of (fst (PUT_group L now req d)) \<noteq> 403
    \<and> status_of (fst (POST_group_image C req d)) \<noteq> 401
    \<and> status_of (fst (POST_group_image C req d)) \<noteq> 404
    \<and> status_of (fst (POST_group_image C req d)) \<noteq> 403
    \<and> status_of (fst (POST_venue L req d)) \<noteq> 401
    \<and> status_of (fst (POST_venue L req d)) \<noteq> 404
    \<and> status_of (fst (POST_venue L req d)) \<noteq> 403"
      by blast
  qed
  have only403: "status_of (fst (DELETE_group req d)) = 403
    \<or> status_of (fst (PUT_group L now req d)) = 403
    \<or> status_of (fst (POST_group_image C req d)) = 403
    \<or> status_of (fst (POST_venue L req d)) = 403 \<longrightarrow>
      user_id req \<noteq> None \<and> findByPk d (groupId req) \<noteq> None"
    using D(7) P(7) I(7) V(7) by blast
  have only404: "status_of (fst (DELETE_group req d)) = 404
    \<or> status_of (fst (PUT_group L now req d)) = 404
    \<or> status_of (fst (POST_group_image C req d)) = 404
    \<or> status_of (fst (POST_venue L req d)) = 404 \<longrightarrow>
      user_id req \<noteq> None \<and> findByPk d (groupId req) = None"
    using D(6) P(6) I(6) V(6) by blast
  have only401: "status_of (fst (DELETE_group req d)) = 401
    \<or> status_of (fst (PUT_group L now req d)) = 401
    \<or> status_of (fst (POST_group_image C req d)) = 401
    \<or> status_of (fst (POST_venue L req d)) = 401
    \<or> status_of (fst (POST_groups L now req d)) = 401 \<longrightarrow>
      user_id req = None"
    using D(5) P(5) I(5) V(5) G(2) by blast
  from none missing other organizer only403 only404 only401 G(3) G(4)
  show ?thesis by (intro conjI)
qed

theorem mutation_guards_order_witness:
  "user_id (request_of None 1) = None
   \<and> status_of (fst (DELETE_group (request_of None 1) store_two_groups)) = 401
   \<and> status_of (fst (PUT_group example_runtime 2000 (request_of None 1) store_two_groups)) = 401
   \<and> status_of (fst (POST_group_image example_image_columns (request_of None 1)
         store_two_groups)) = 401
   \<and> status_of (fst (POST_venue example_runtime (request_of None 1) store_two_groups)) = 401
   \<and> status_of (fst (POST_groups example_runtime 2000 (request_of None 1) store_two_groups)) = 401
   \<and> snd (POST_groups example_runtime 2000 (request_of None 1) store_two_groups)
       = store_two_groups
   \<and> findByPk store_two_groups (groupId (request_of (Some 2) 7)) = None
   \<and> status_of (fst (DELETE_group (request_of (Some 2) 7) store_two_groups)) = 404
   \<and> status_of (fst (POST_group_image example_image_columns (request_of (Some 2) 7)
         store_two_groups)) = 404
   \<and> status_of (fst (POST_venue example_runtime (request_of (Some 2) 7) store_two_groups)) = 404
   \<and> findByPk store_two_groups (groupId (request_of (Some 2) 1)) = Some (example_group 1 1)
   \<and> status_of (fst (DELETE_group (request_of (Some 2) 1) store_two_groups)) = 403
   \<and> snd (DELETE_group (request_of (Some 2) 1) store_two_groups) = store_two_groups
   \<and> status_of (fst (PUT_group example_runtime 2000 (request_of (Some 2) 1) store_two_groups))
       = 403
   \<and> status_of (fst (POST_group_image example_image_columns (request_of (Some 2) 1)
         store_two_groups)) = 403
   \<and> snd (POST_group_image example_image_columns (request_of (Some 2) 1) store_two_groups)
       = store_two_groups
   \<and> status_of (fst (POST_venue example_runtime (request_of (Some 2) 1) store_two_groups)) = 403
   \<and> snd (POST_venue example_runtime (request_of (Some 2) 1) store_two_groups)
       = store_two_groups
   \<and> status_of (fst (POST_venue example_runtime
         (request_with (Some 3) 1 (venue_body (JNum 10))) store_with_cohost)) = 200
   \<and> DELETE_group (request_of (Some 1) 1) store_two_groups
       = (Inr ''Successfully deleted'', destroy_group 1 store_two_groups)
   \<and> map g_id (Groups (destroy_group 1 store_two_groups)) = [2]"
proof -
  have a: "user_id (request_of None 1) = None"
    by (simp add: request_of_def)
  have b: "user_id (request_of (Some 2) 7) \<noteq> None
      \<and> findByPk store_two_groups (groupId (request_of (Some 2) 7)) = None"
    by code_simp
  have c: "user_id (request_of (Some 2) 1) = Some 2
      \<and> findByPk store_two_groups (groupId (request_of (Some 2) 1)) = Some (example_group 1 1)
      \<and> g_organizerId (example_group 1 1) \<noteq> 2"
    by code_simp
  have c': "\<forall>m \<in> set (Memberships store_two_groups).
      \<not> (m_groupId m = groupId (request_of (Some 2) 1) \<and> m_userId m = 2
         \<and> m_status m = ''co-host'')"
    by (simp add: store_two_groups_def)
  have e: "user_id (request_of (Some 1) 1) = Some 1
      \<and> findByPk store_two_groups (groupId (request_of (Some 1) 1)) = Some (example_group 1 1)
      \<and> g_organizerId (example_group 1 1) = 1"
    by code_simp
  have g: "groupId (request_of (Some 1) 1) = 1"
    by (simp add: request_of_def)
  note at_none = mutation_guards_order[of "request_of None 1" store_two_groups example_runtime
      2000 example_image_columns]
  note at_missing = mutation_guards_order[of "request_of (Some 2) 7" store_two_groups
      example_runtime 2000 example_image_columns]
  note at_other = mutation_guards_order[of "request_of (Some 2) 1" store_two_groups
      example_runtime 2000 example_image_columns]
  note at_organizer = mutation_guards_order[of "request_of (Some 1) 1" store_two_groups
      example_runtime 2000 example_image_columns]
  have "status_of (fst (DELETE_group (request_of None 1) store_two_groups)) = 401
   \<and> status_of (fst (PUT_group example_runtime 2000 (request_of None 1) store_two_groups)) = 401
   \<and> status_of (fst (POST_group_image example_image_columns (request_of None 1)
         store_two_groups)) = 401
   \<and> status_of (fst (POST_venue example_runtime (request_of None 1) store_two_groups)) = 401
   \<and> status_of (fst (POST_groups example_runtime 2000 (request_of None 1) store_two_groups)) = 401
   \<and> snd (POST_groups example_runtime 2000 (request_of None 1) store_two_groups)
       = store_two_groups"
    using at_none a by blast
  moreover have "status_of (fst (DELETE_group (request_of (Some 2) 7) store_two_groups)) = 404
   \<and> status_of (fst (POST_group_image example_image_columns (request_of (Some 2) 7)
         store_two_groups)) = 404
   \<and> status_of (fst (POST_venue example_runtime (request_of (Some 2) 7) store_two_groups)) = 404"
    using at_missing b by blast
  moreover have "status_of (fst (DELETE_group (request_of (Some 2) 1) store_two_groups)) = 403
   \<and> snd (DELETE_group (request_of (Some 2) 1) store_two_groups) = store_two_groups
   \<and> status_of (fst (PUT_group example_runtime 2000 (request_of (Some 2) 1) store_two_groups))
       = 403
   \<and> status_of (fst (POST_group_image example_image_columns (request_of (Some 2) 1)
         store_two_groups)) = 403
   \<and> snd (POST_group_image example_image_columns (request_of (Some 2) 1) store_two_groups)
       = store_two_groups
   \<and> status_of (fst (POST_venue example_runtime (request_of (Some 2) 1) store_two_groups)) = 403
   \<and> snd (POST_venue example_runtime (request_of (Some 2) 1) store_two_groups)
       = store_two_groups"
    using at_other c c' by blast
  moreover have "status_of (fst (POST_venue example_runtime
         (request_with (Some 3) 1 (venue_body (JNum 10))) store_with_cohost)) = 200"
    by code_simp
  moreover have "DELETE_group (request_of (Some 1) 1) store_two_groups
       = (Inr ''Successfully deleted'', destroy_group 1 store_two_groups)"
    using at_organizer e unfolding g by blast
  moreover have "map g_id (Groups (destroy_group 1 store_two_groups)) = [2]"
    by code_simp
  ultimately show ?thesis using a b c by blast
qed

text \<open>
  The store with the same preview image twice is reached from the store with one
  preview image by the organizer sending that image once more.
\<close>

lemma POST_group_image_same_preview_twice:
  "map_sum status (\<lambda>x. x) (fst (POST_group_image example_image_columns
       (request_with (Some 1) 1 image_body) store_one_preview)) = Inr (2, ''a.png'', True)"
  "snd (POST_group_image example_image_columns
       (request_with (Some 1) 1 image_body) store_one_preview) = store_same_preview_twice"
  by code_simp+

text \<open>
  C7.  The claim: venue creation accepts a latitude exactly when it lies strictly
  between -89 and 91, and a request with \<^verbatim>\<open>lat = 0\<close> and otherwise valid fields
  succeeds.  The route at a body whose \<^verbatim>\<open>lat\<close> is the JSON number 0, sent by the
  group's organizer: \<^verbatim>\<open>exists({checkFalsy: true})\<close> takes the number 0 for a missing
  field, the response is 400 with an error for \<^verbatim>\<open>lat\<close>, and no Venue row is created.
  (By \<open>lat_check_nonzero\<close> every other number is accepted exactly in the stated range;
  \<open>POST_venue_examples\<close> runs -90, 10 and the string \<^verbatim>\<open>"0"\<close>.)
\<close>

theorem POST_venue_lat_zero:
  assumes "user_id req = Some u" "findByPk d (groupId req) = Some g" "g_organizerId g = u"
    and lat: "body req ''lat'' = JNum 0"
  shows "\<exists>e. POST_venue L req d = (Inl e, d) \<and> status e = 400 \<and> errors e ''lat'' \<noteq> None"
proof -
  let ?es = "validationResult L validateVenue req"
  from lat_check_zero[of "body req" L, OF lat] have mem: "(''lat'', ''Invalid value'') \<in> set ?es"
    by (simp add: validationResult_validateVenue)
  then have ne: "?es \<noteq> []" by auto
  from mem have "''lat'' \<in> fst ` set ?es" by force
  then have "map_of (rev ?es) ''lat'' \<noteq> None" by (simp add: map_of_rev_None_iff)
  with venue_guards_organizer[OF assms(1-3), of L] handleValidationErrors_Some[OF ne]
  show ?thesis by (simp add: POST_venue_def)
qed

theorem POST_venue_lat_zero_witness:
  "user_id (request_with (Some 1) 1 (venue_body (JNum 0))) = Some 1
   \<and> findByPk store_two_groups (groupId (request_with (Some 1) 1 (venue_body (JNum 0))))
       = Some (example_group 1 1)
   \<and> body (request_with (Some 1) 1 (venue_body (JNum 0))) ''lat'' = JNum 0
   \<and> status_of (fst (POST_venue example_runtime
         (request_with (Some 1) 1 (venue_body (JNum 0))) store_two_groups)) = 400
   \<and> snd (POST_venue example_runtime
         (request_with (Some 1) 1 (venue_body (JNum 0))) store_two_groups) = store_two_groups"
proof -
  have u: "user_id (request_with (Some 1) 1 (venue_body (JNum 0))) = Some 1"
    by (simp add: request_with_def)
  have f: "findByPk store_two_groups (groupId (request_with (Some 1) 1 (venue_body (JNum 0))))
       = Some (example_group 1 1)"
    by code_simp
  have o: "g_organizerId (example_group 1 1) = 1"
    by (simp add: example_group_def)
  have l: "body (request_with (Some 1) 1 (venue_body (JNum 0))) ''lat'' = JNum 0"
    by (simp add: request_with_def venue_body_def)
  from POST_venue_lat_zero[OF u f o l, of example_runtime]
  have "status_of (fst (POST_venue example_runtime
         (request_with (Some 1) 1 (venue_body (JNum 0))) store_two_groups)) = 400
   \<and> snd (POST_venue example_runtime
         (request_with (Some 1) 1 (venue_body (JNum 0))) store_two_groups) = store_two_groups"
    by (auto simp: status_of_def)
  with u f l show ?thesis by blast
qed

lemma POST_venue_examples:
  "status_of (fst (POST_venue example_runtime
      (request_with (Some 1) 1 (venue_body (JNum (- 90)))) store_two_groups)) = 400"
  "status_of (fst (POST_venue example_runtime
      (request_with (Some 1) 1 (venue_body (JNum 10))) store_two_groups)) = 200"
  "status_of (fst (POST_venue example_runtime
      (request_with (Some 1) 1 (venue_body (JStr ''0''))) store_two_groups)) = 200"
  "validationResult example_runtime validateVenue
      (request_with (Some 1) 1 (venue_body (JNum 0))) = [(''lat'', ''Invalid value'')]"
  by code_simp+



lemma group_set_same_iff:
  "group_set b g = g \<longleftrightarrow>
     g_name g = b ''name'' \<and> g_about g = b ''about'' \<and> g_type g = b ''type''
     \<and> g_private g = BOOLEAN_sanitize (b ''private'') \<and> g_city g = b ''city''
     \<and> g_state g = b ''state''"
proof
  assume "group_set b g = g"
  then have "g_name (group_set b g) = g_name g" "g_about (group_set b g) = g_about g"
    "g_type (group_set b g) = g_type g" "g_private (group_set b g) = g_private g"
    "g_city (group_set b g) = g_city g" "g_state (group_set b g) = g_state g"
    by simp_all
  then show "g_name g = b ''name'' \<and> g_about g = b ''about'' \<and> g_type g = b ''type''
     \<and> g_private g = BOOLEAN_sanitize (b ''private'') \<and> g_city g = b ''city''
     \<and> g_state g = b ''state''"
    by (simp add: group_set_def)
next
  assume "g_name g = b ''name'' \<and> g_about g = b ''about'' \<and> g_type g = b ''type''
     \<and> g_private g = BOOLEAN_sanitize (b ''private'') \<and> g_city g = b ''city''
     \<and> g_state g = b ''state''"
  then show "group_set b g = g"
    by (simp add: group_set_def)
qed

text \<open>
  C10.  The claim: a valid PUT /groups/:groupId modifies only the six fields name,
  about, type, private, city and state of the targeted Group row.  The organizer of
  group 1 sends a valid body with another \<^verbatim>\<open>about\<close> at time 2000: besides \<^verbatim>\<open>about\<close>
  the \<^verbatim>\<open>updatedAt\<close> of the row, which was 1000, has become 2000, in the store and in
  the response.
\<close>

theorem PUT_group_frame_counterexample:
  "validationResult example_runtime validateGroup
       (request_with (Some 1) 1 (group_body (JStr (replicate 50 CHR ''b'')))) = []
   \<and> map g_updatedAt (Groups store_two_groups) = [1000, 1000]
   \<and> map g_updatedAt (Groups (snd (PUT_group example_runtime 2000
         (request_with (Some 1) 1 (group_body (JStr (replicate 50 CHR ''b'')))) store_two_groups)))
       = [2000, 1000]
   \<and> map_sum status g_updatedAt (fst (PUT_group example_runtime 2000
         (request_with (Some 1) 1 (group_body (JStr (replicate 50 CHR ''b'')))) store_two_groups))
       = Inr 2000"
  by code_simp

text \<open>
  C10, amended.  PUT /groups/:groupId leaves the Membership, GroupImage, Venue, Event,
  Attendance and EventImage rows and the sequences as they were; it keeps the number of
  Group rows and the \<^verbatim>\<open>id\<close>, \<^verbatim>\<open>organizerId\<close> and \<^verbatim>\<open>createdAt\<close> of each; a row differs
  from what it was in at most the six fields name, about, type, private, city and state
  and in \<^verbatim>\<open>updatedAt\<close>, which is as it was or the time of the request; a row with another
  id does not differ at all.  For the organizer of an existing group and a body that
  passes the validation: when the body repeats what the row holds (\<^verbatim>\<open>private\<close> as the
  model's setter reads it), the response is the row and the store is unchanged;
  otherwise the response is the row with the six fields taken from the body and
  \<^verbatim>\<open>updatedAt\<close> set to the time of the request, and that is what the targeted row
  becomes.
\<close>

theorem PUT_group_frame:
  "Memberships (snd (PUT_group L now req d)) = Memberships d
   \<and> GroupImages (snd (PUT_group L now req d)) = GroupImages d
   \<and> Venues (snd (PUT_group L now req d)) = Venues d
   \<and> Events (snd (PUT_group L now req d)) = Events d
   \<and> Attendances (snd (PUT_group L now req d)) = Attendances d
   \<and> EventImages (snd (PUT_group L now req d)) = EventImages d
   \<and> Groups_seq (snd (PUT_group L now req d)) = Groups_seq d
   \<and> GroupImages_seq (snd (PUT_group L now req d)) = GroupImages_seq d
   \<and> Venues_seq (snd (PUT_group L now req d)) = Venues_seq d
   \<and> length (Groups (snd (PUT_group L now req d))) = length (Groups d)
   \<and> (\<forall>i. i < length (Groups d) \<longrightarrow>
        g_id (Groups (snd (PUT_group L now req d)) ! i) = g_id (Groups d ! i)
      \<and> g_organizerId (Groups (snd (PUT_group L now req d)) ! i) = g_organizerId (Groups d ! i)
      \<and> g_createdAt (Groups (snd (PUT_group L now req d)) ! i) = g_createdAt (Groups d ! i)
      \<and> (\<exists>n a t p c s w. Groups (snd (PUT_group L now req d)) ! i =
            (Groups d ! i)\<lparr>g_name := n, g_about := a, g_type := t, g_private := p,
                           g_city := c, g_state := s, g_updatedAt := w\<rparr>)
      \<and> (g_updatedAt (Groups (snd (PUT_group L now req d)) ! i) = g_updatedAt (Groups d ! i)
         \<or> g_updatedAt (Groups (snd (PUT_group L now req d)) ! i) = now)
      \<and> (g_id (Groups d ! i) \<noteq> groupId req \<longrightarrow>
            Groups (snd (PUT_group L now req d)) ! i = Groups d ! i))
   \<and> (\<forall>u g. user_id req = Some u \<and> findByPk d (groupId req) = Some g \<and> g_organizerId g = u
            \<and> validationResult L validateGroup req = [] \<longrightarrow>
        (g_name g = body req ''name'' \<and> g_about g = body req ''about''
           \<and> g_type g = body req ''type''
           \<and> g_private g = BOOLEAN_sanitize (body req ''private'')
           \<and> g_city g = body req ''city'' \<and> g_state g = body req ''state'' \<longrightarrow>
         PUT_group L now req d = (Inr g, d))
      \<and> (\<not> (g_name g = body req ''name'' \<and> g_about g = body req ''about''
              \<and> g_type g = body req ''type''
              \<and> g_private g = BOOLEAN_sanitize (body req ''private'')
              \<and> g_city g = body req ''city'' \<and> g_state g = body req ''state'') \<longrightarrow>
         fst (PUT_group L now req d) =
           Inr (g\<lparr>g_name := body req ''name'', g_about := body req ''about'',
                  g_type := body req ''type'',
                  g_private := BOOLEAN_sanitize (body req ''private''),
                  g_city := body req ''city'', g_state := body req ''state'',
                  g_updatedAt := now\<rparr>)
       \<and> (\<forall>i. i < length (Groups d) \<and> g_id (Groups d ! i) = groupId req \<longrightarrow>
             Groups (snd (PUT_group L now req d)) ! i =
               (Groups d ! i)\<lparr>g_name := body req ''name'', g_about := body req ''about'',
                  g_type := body req ''type'',
                  g_private := BOOLEAN_sanitize (body req ''private''),
                  g_city := body req ''city'', g_state := body req ''state'',
                  g_updatedAt := now\<rparr>)))"
proof -
  let ?set = "\<lambda>x. (group_set (body req) x)\<lparr>g_updatedAt := now\<rparr>"
  let ?new = "\<lambda>x. if g_id x = groupId req then ?set x else x"
  let ?same = "\<lambda>g. g_name g = body req ''name'' \<and> g_about g = body req ''about''
           \<and> g_type g = body req ''type''
           \<and> g_private g = BOOLEAN_sanitize (body req ''private'')
           \<and> g_city g = body req ''city'' \<and> g_state g = body req ''state''"
  have set_eq: "?set x = x\<lparr>g_name := body req ''name'', g_about := body req ''about'',
                  g_type := body req ''type'',
                  g_private := BOOLEAN_sanitize (body req ''private''),
                  g_city := body req ''city'', g_state := body req ''state'',
                  g_updatedAt := now\<rparr>" for x :: group_row
    by (simp add: group_set_def)
  have unch: "\<exists>n a t p c s w. x =
      x\<lparr>g_name := n, g_about := a, g_type := t, g_private := p, g_city := c, g_state := s,
        g_updatedAt := w\<rparr>" for x :: group_row
  proof -
    have "x = x\<lparr>g_name := g_name x, g_about := g_about x, g_type := g_type x,
               g_private := g_private x, g_city := g_city x, g_state := g_state x,
               g_updatedAt := g_updatedAt x\<rparr>" by simp
    then show ?thesis by (metis (full_types))
  qed
  have shape: "\<exists>n a t p c s w. ?new x =
      x\<lparr>g_name := n, g_about := a, g_type := t, g_private := p, g_city := c, g_state := s,
        g_updatedAt := w\<rparr>" for x :: group_row
  proof (cases "g_id x = groupId req")
    case True
    then have "?new x = x\<lparr>g_name := body req ''name'', g_about := body req ''about'',
                  g_type := body req ''type'',
                  g_private := BOOLEAN_sanitize (body req ''private''),
                  g_city := body req ''city'', g_state := body req ''state'',
                  g_updatedAt := now\<rparr>"
      by (simp add: group_set_def)
    then show ?thesis by blast
  next
    case False
    with unch[of x] show ?thesis by simp
  qed
  have ids: "g_id (?new x) = g_id x \<and> g_organizerId (?new x) = g_organizerId x
      \<and> g_createdAt (?new x) = g_createdAt x
      \<and> (g_updatedAt (?new x) = g_updatedAt x \<or> g_updatedAt (?new x) = now)"
    for x :: group_row
    by (simp add: group_set_def)
  let ?d' = "d\<lparr>Groups := map ?new (Groups d)\<rparr>"
  have rows: "\<forall>i. i < length (Groups d) \<longrightarrow>
        g_id (Groups ?d' ! i) = g_id (Groups d ! i)
      \<and> g_organizerId (Groups ?d' ! i) = g_organizerId (Groups d ! i)
      \<and> g_createdAt (Groups ?d' ! i) = g_createdAt (Groups d ! i)
      \<and> (\<exists>n a t p c s w. Groups ?d' ! i =
            (Groups d ! i)\<lparr>g_name := n, g_about := a, g_type := t, g_private := p,
                           g_city := c, g_state := s, g_updatedAt := w\<rparr>)
      \<and> (g_updatedAt (Groups ?d' ! i) = g_updatedAt (Groups d ! i)
         \<or> g_updatedAt (Groups ?d' ! i) = now)
      \<and> (g_id (Groups d ! i) \<noteq> groupId req \<longrightarrow> Groups ?d' ! i = Groups d ! i)"
  proof (intro allI impI)
    fix i assume i: "i < length (Groups d)"
    then have nth: "Groups ?d' ! i = ?new (Groups d ! i)" by simp
    show "g_id (Groups ?d' ! i) = g_id (Groups d ! i)
      \<and> g_organizerId (Groups ?d' ! i) = g_organizerId (Groups d ! i)
      \<and> g_createdAt (Groups ?d' ! i) = g_createdAt (Groups d ! i)
      \<and> (\<exists>n a t p c s w. Groups ?d' ! i =
            (Groups d ! i)\<lparr>g_name := n, g_about := a, g_type := t, g_private := p,
                           g_city := c, g_state := s, g_updatedAt := w\<rparr>)
      \<and> (g_updatedAt (Groups ?d' ! i) = g_updatedAt (Groups d ! i)
         \<or> g_updatedAt (Groups ?d' ! i) = now)
      \<and> (g_id (Groups d ! i) \<noteq> groupId req \<longrightarrow> Groups ?d' ! i = Groups d ! i)"
      unfolding nth using ids[of "Groups d ! i"] shape[of "Groups d ! i"] by simp
  qed
  have rows_same: "\<forall>i. i < length (Groups d) \<longrightarrow>
        g_id (Groups d ! i) = g_id (Groups d ! i)
      \<and> g_organizerId (Groups d ! i) = g_organizerId (Groups d ! i)
      \<and> g_createdAt (Groups d ! i) = g_createdAt (Groups d ! i)
      \<and> (\<exists>n a t p c s w. Groups d ! i =
            (Groups d ! i)\<lparr>g_name := n, g_about := a, g_type := t, g_private := p,
                           g_city := c, g_state := s, g_updatedAt := w\<rparr>)
      \<and> (g_updatedAt (Groups d ! i) = g_updatedAt (Groups d ! i)
         \<or> g_updatedAt (Groups d ! i) = now)
      \<and> (g_id (Groups d ! i) \<noteq> groupId req \<longrightarrow> Groups d ! i = Groups d ! i)"
    using unch by simp
  show ?thesis
  proof (cases "\<exists>u g. user_id req = Some u \<and> findByPk d (groupId req) = Some g
      \<and> g_organizerId g = u \<and> validationResult L validateGroup req = []")
    case True
    then obtain u g where ok: "user_id req = Some u" "findByPk d (groupId req) = Some g"
      "g_organizerId g = u" "validationResult L validateGroup req = []" by blast
    show ?thesis
    proof (cases "?same g")
      case same: True
      then have "group_set (body req) g = g" by (simp add: group_set_same_iff)
      with ok have put: "PUT_group L now req d = (Inr g, d)"
        by (simp add: PUT_group_cases handleValidationErrors_def)
      have tail: "\<forall>u g. user_id req = Some u \<and> findByPk d (groupId req) = Some g
            \<and> g_organizerId g = u \<and> validationResult L validateGroup req = [] \<longrightarrow>
        (?same g \<longrightarrow> (Inr g, d) = (Inr g, d))
      \<and> (\<not> ?same g \<longrightarrow>
         fst ((Inr g, d) :: (http_error + group_row) \<times> db) =
           Inr (g\<lparr>g_name := body req ''name'', g_about := body req ''about'',
                  g_type := body req ''type'',
                  g_private := BOOLEAN_sanitize (body req ''private''),
                  g_city := body req ''city'', g_state := body req ''state'',
                  g_updatedAt := now\<rparr>)
       \<and> (\<forall>i. i < length (Groups d) \<and> g_id (Groups d ! i) = groupId req \<longrightarrow>
             Groups d ! i =
               (Groups d ! i)\<lparr>g_name := body req ''name'', g_about := body req ''about'',
                  g_type := body req ''type'',
                  g_private := BOOLEAN_sanitize (body req ''private''),
                  g_city := body req ''city'', g_state := body req ''state'',
                  g_updatedAt := now\<rparr>))"
        using ok(2) same by auto
      show ?thesis unfolding put using rows_same tail ok(2) by simp
    next
      case diff: False
      then have "group_set (body req) g \<noteq> g" by (simp add: group_set_same_iff)
      with ok have put: "PUT_group L now req d = (Inr (?set g), ?d')"
        by (simp add: PUT_group_cases handleValidationErrors_def)
      have tail: "\<forall>u g'. user_id req = Some u \<and> findByPk d (groupId req) = Some g'
            \<and> g_organizerId g' = u \<and> validationResult L validateGroup req = [] \<longrightarrow>
        (?same g' \<longrightarrow> (Inr (?set g), ?d') = (Inr g', d))
      \<and> (\<not> ?same g' \<longrightarrow>
         Inr (?set g) =
           (Inr (g'\<lparr>g_name := body req ''name'', g_about := body req ''about'',
                  g_type := body req ''type'',
                  g_private := BOOLEAN_sanitize (body req ''private''),
                  g_city := body req ''city'', g_state := body req ''state'',
                  g_updatedAt := now\<rparr>) :: http_error + group_row)
       \<and> (\<forall>i. i < length (Groups d) \<and> g_id (Groups d ! i) = groupId req \<longrightarrow>
             Groups ?d' ! i =
               (Groups d ! i)\<lparr>g_name := body req ''name'', g_about := body req ''about'',
                  g_type := body req ''type'',
                  g_private := BOOLEAN_sanitize (body req ''private''),
                  g_city := body req ''city'', g_state := body req ''state'',
                  g_updatedAt := now\<rparr>))"
        using ok(2) diff by (auto simp: group_set_def)
      have frame: "Memberships ?d' = Memberships d \<and> GroupImages ?d' = GroupImages d
          \<and> Venues ?d' = Venues d \<and> Events ?d' = Events d \<and> Attendances ?d' = Attendances d
          \<and> EventImages ?d' = EventImages d \<and> Groups_seq ?d' = Groups_seq d
          \<and> GroupImages_seq ?d' = GroupImages_seq d \<and> Venues_seq ?d' = Venues_seq d
          \<and> length (Groups ?d') = length (Groups d)"
        by simp
      show ?thesis unfolding put fst_conv snd_conv
        using frame rows tail by (elim conjE) (intro conjI; assumption)
    qed
  next
    case False
    then have same: "PUT_group L now req d = (fst (PUT_group L now req d), d)"
      by (auto simp: PUT_group_cases handleValidationErrors_def split: option.splits)
    then have snd_same: "snd (PUT_group L now req d) = d"
      by (metis snd_conv)
    from False have nf: "user_id req = Some u \<Longrightarrow> findByPk d (groupId req) = Some g \<Longrightarrow>
      g_organizerId g = u \<Longrightarrow> validationResult L validateGroup req = [] \<Longrightarrow> False" for u g
      by blast
    have tail: "\<forall>u g. user_id req = Some u \<and> findByPk d (groupId req) = Some g
            \<and> g_organizerId g = u \<and> validationResult L validateGroup req = [] \<longrightarrow>
        (?same g \<longrightarrow> PUT_group L now req d = (Inr g, d))
      \<and> (\<not> ?same g \<longrightarrow>
         fst (PUT_group L now req d) =
           Inr (g\<lparr>g_name := body req ''name'', g_about := body req ''about'',
                  g_type := body req ''type'',
                  g_private := BOOLEAN_sanitize (body req ''private''),
                  g_city := body req ''city'', g_state := body req ''state'',
                  g_updatedAt := now\<rparr>)
       \<and> (\<forall>i. i < length (Groups d) \<and> g_id (Groups d ! i) = groupId req \<longrightarrow>
             Groups (snd (PUT_group L now req d)) ! i =
               (Groups d ! i)\<lparr>g_name := body req ''name'', g_about := body req ''about'',
                  g_type := body req ''type'',
                  g_private := BOOLEAN_sanitize (body req ''private''),
                  g_city := body req ''city'', g_state := body req ''state'',
                  g_updatedAt := now\<rparr>))"
      using nf by blast
    show ?thesis using rows_same tail unfolding snd_same by simp
  qed
qed

theorem PUT_group_frame_witness:
  "user_id (request_with (Some 1) 1 (group_body (JStr (replicate 50 CHR ''b'')))) = Some 1
   \<and> findByPk store_two_groups
         (groupId (request_with (Some 1) 1 (group_body (JStr (replicate 50 CHR ''b'')))))
       = Some (example_group 1 1)
   \<and> validationResult example_runtime validateGroup
         (request_with (Some 1) 1 (group_body (JStr (replicate 50 CHR ''b'')))) = []
   \<and> fst (PUT_group example_runtime 2000
         (request_with (Some 1) 1 (group_body (JStr (replicate 50 CHR ''b'')))) store_two_groups)
       = Inr ((example_group 1 1)\<lparr>g_about := JStr (replicate 50 CHR ''b''),
                                   g_updatedAt := 2000\<rparr>)
   \<and> Memberships (snd (PUT_group example_runtime 2000
         (request_with (Some 1) 1 (group_body (JStr (replicate 50 CHR ''b'')))) store_two_groups))
       = Memberships store_two_groups
   \<and> map g_about (Groups (snd (PUT_group example_runtime 2000
         (request_with (Some 1) 1 (group_body (JStr (replicate 50 CHR ''b'')))) store_two_groups)))
       = [JStr (replicate 50 CHR ''b''), JStr (replicate 50 CHR ''a'')]
   \<and> map g_organizerId (Groups (snd (PUT_group example_runtime 2000
         (request_with (Some 1) 1 (group_body (JStr (replicate 50 CHR ''b'')))) store_two_groups)))
       = [1, 3]
   \<and> PUT_group example_runtime 2000
         (request_with (Some 1) 1 (group_body (JStr (replicate 50 CHR ''a'')))) store_two_groups
       = (Inr (example_group 1 1), store_two_groups)"
proof -
  let ?r = "request_with (Some 1) 1 (group_body (JStr (replicate 50 CHR ''b'')))"
  let ?q = "request_with (Some 1) 1 (group_body (JStr (replicate 50 CHR ''a'')))"
  have u: "user_id ?r = Some 1" and uq: "user_id ?q = Some 1"
    by (simp_all add: request_with_def)
  have f: "findByPk store_two_groups (groupId ?r) = Some (example_group 1 1)"
    by code_simp
  have fq: "findByPk store_two_groups (groupId ?q) = Some (example_group 1 1)"
    by code_simp
  have o: "g_organizerId (example_group 1 1) = 1"
    by (simp add: example_group_def)
  have v: "validationResult example_runtime validateGroup ?r = []"
    by code_simp
  have vq: "validationResult example_runtime validateGroup ?q = []"
    by code_simp
  have diff: "\<not> (g_name (example_group 1 1) = body ?r ''name''
      \<and> g_about (example_group 1 1) = body ?r ''about''
      \<and> g_type (example_group 1 1) = body ?r ''type''
      \<and> g_private (example_group 1 1) = BOOLEAN_sanitize (body ?r ''private'')
      \<and> g_city (example_group 1 1) = body ?r ''city''
      \<and> g_state (example_group 1 1) = body ?r ''state'')"
    by (simp add: example_group_def request_with_def group_body_def)
  have same: "g_name (example_group 1 1) = body ?q ''name''
      \<and> g_about (example_group 1 1) = body ?q ''about''
      \<and> g_type (example_group 1 1) = body ?q ''type''
      \<and> g_private (example_group 1 1) = BOOLEAN_sanitize (body ?q ''private'')
      \<and> g_city (example_group 1 1) = body ?q ''city''
      \<and> g_state (example_group 1 1) = body ?q ''state''"
    by (simp add: example_group_def request_with_def group_body_def)
  note frame = PUT_group_frame[of example_runtime 2000 ?r store_two_groups]
  note frame_q = PUT_group_frame[of example_runtime 2000 ?q store_two_groups]
  from frame have m: "Memberships (snd (PUT_group example_runtime 2000 ?r store_two_groups))
       = Memberships store_two_groups"
    by blast
  from frame u f o v diff
  have "fst (PUT_group example_runtime 2000 ?r store_two_groups) =
          Inr ((example_group 1 1)\<lparr>g_name := body ?r ''name'', g_about := body ?r ''about'',
                 g_type := body ?r ''type'',
                 g_private := BOOLEAN_sanitize (body ?r ''private''),
                 g_city := body ?r ''city'', g_state := body ?r ''state'',
                 g_updatedAt := 2000\<rparr>)"
    by blast
  then have r: "fst (PUT_group example_runtime 2000 ?r store_two_groups)
       = Inr ((example_group 1 1)\<lparr>g_about := JStr (replicate 50 CHR ''b''),
                                   g_updatedAt := 2000\<rparr>)"
    by (simp add: request_with_def group_body_def example_group_def)
  from frame_q uq fq o vq same
  have q: "PUT_group example_runtime 2000 ?q store_two_groups
       = (Inr (example_group 1 1), store_two_groups)"
    by blast
  have a: "map g_about (Groups (snd (PUT_group example_runtime 2000 ?r store_two_groups)))
       = [JStr (replicate 50 CHR ''b''), JStr (replicate 50 CHR ''a'')]"
    by code_simp
  have g: "map g_organizerId (Groups (snd (PUT_group example_runtime 2000 ?r store_two_groups)))
       = [1, 3]"
    by code_simp
  from u f v r m a g q show ?thesis by blast
qed

subsection \<open>The client's partition of the events\<close>

lemma partition_loop_fixed_clock:
  "partition_loop P (\<lambda>i. now) i es acc =
     (fst acc @ filter (is_past P now) es, snd acc @ filter (\<lambda>e. \<not> is_past P now e) es)"
proof (induction es arbitrary: i acc)
  case Nil
  then show ?case by simp
next
  case (Cons e es)
  then show ?case by (simp add: Date_gt_def is_past_def)
qed

lemma mset_js_insert: "mset (js_insert cmp x ys) = add_mset x (mset ys)"
  by (induction ys) simp_all

lemma mset_js_sort: "mset (js_sort cmp xs) = mset xs"
  unfolding js_sort_def by (induction xs) (simp_all add: mset_js_insert)

lemma set_js_sort: "set (js_sort cmp xs) = set xs"
  using mset_js_sort[of cmp xs] by (metis set_mset_mset)

lemma start_le_trans: "start_le P a b \<Longrightarrow> start_le P b c \<Longrightarrow> start_le P a c"
  by (auto simp: start_le_def split: option.splits)

lemma sorter_positive:
  assumes "P (startDate x) = Some tx" and "P (startDate y) = Some ty"
  shows "(case sorter P x y of None \<Rightarrow> False | Some v \<Rightarrow> 0 < v) \<longleftrightarrow> ty < tx"
  using assms by (simp add: sorter_def)

lemma sorted_js_insert:
  assumes "sorted_wrt (start_le P) ys" and "\<forall>y \<in> set ys. P (startDate y) \<noteq> None"
    and "P (startDate x) \<noteq> None"
  shows "sorted_wrt (start_le P) (js_insert (sorter P) x ys)"
  using assms
proof (induction ys)
  case Nil
  then show ?case by simp
next
  case (Cons y ys)
  from Cons.prems obtain tx ty where tx: "P (startDate x) = Some tx"
    and ty: "P (startDate y) = Some ty" by auto
  show ?case
  proof (cases "ty < tx")
    case True
    then have yx: "start_le P y x" using tx ty by (simp add: start_le_def)
    from Cons.prems have "\<forall>z \<in> set ys. start_le P y z" by simp
    with yx have "\<forall>z \<in> set (js_insert (sorter P) x ys). start_le P y z"
      by (metis insert_iff mset_js_insert set_mset_add_mset_insert set_mset_mset)
    moreover have "sorted_wrt (start_le P) (js_insert (sorter P) x ys)"
      using Cons by simp
    ultimately show ?thesis using True sorter_positive[OF tx ty] by simp
  next
    case False
    then have xy: "start_le P x y" using tx ty by (simp add: start_le_def)
    from Cons.prems have "\<forall>z \<in> set ys. start_le P y z" by simp
    with xy have "\<forall>z \<in> set ys. start_le P x z" by (blast intro: start_le_trans)
    with xy Cons.prems(1) False sorter_positive[OF tx ty] show ?thesis by simp
  qed
qed

lemma sorted_js_sort:
  assumes "\<forall>x \<in> set xs. P (startDate x) \<noteq> None"
  shows "sorted_wrt (start_le P) (js_sort (sorter P) xs)"
  using assms
proof (induction xs)
  case Nil
  then show ?case by (simp add: js_sort_def)
next
  case (Cons x xs)
  then have "sorted_wrt (start_le P) (js_sort (sorter P) xs)" by simp
  moreover have "\<forall>y \<in> set (js_sort (sorter P) xs). P (startDate y) \<noteq> None"
    using Cons.prems by (simp add: set_js_sort)
  moreover have "P (startDate x) \<noteq> None" using Cons.prems by simp
  ultimately have "sorted_wrt (start_le P) (js_insert (sorter P) x (js_sort (sorter P) xs))"
    by (rule sorted_js_insert)
  then show ?case by (simp add: js_sort_def)
qed

text \<open>On valid dates the sort is the stable sort by the parsed date.\<close>

lemma js_insert_insort_key:
  assumes "\<forall>y \<in> set ys. P (startDate y) \<noteq> None" and "P (startDate x) \<noteq> None"
  shows "js_insert (sorter P) x ys = insort_key (\<lambda>e. the (P (startDate e))) x ys"
  using assms
proof (induction ys)
  case Nil
  then show ?case by simp
next
  case (Cons y ys)
  from Cons.prems obtain tx ty where tx: "P (startDate x) = Some tx"
    and ty: "P (startDate y) = Some ty" by auto
  from Cons show ?case using sorter_positive[OF tx ty] tx ty by auto
qed

lemma js_sort_sort_key:
  assumes "\<forall>x \<in> set xs. P (startDate x) \<noteq> None"
  shows "js_sort (sorter P) xs = sort_key (\<lambda>e. the (P (startDate e))) xs"
  using assms
proof (induction xs)
  case Nil
  then show ?case by (simp add: js_sort_def)
next
  case (Cons x xs)
  then have IH: "js_sort (sorter P) xs = sort_key (\<lambda>e. the (P (startDate e))) xs" by simp
  have "\<forall>y \<in> set (js_sort (sorter P) xs). P (startDate y) \<noteq> None"
    using Cons.prems by (simp add: set_js_sort)
  from js_insert_insort_key[OF this, of x] Cons.prems IH
  show ?case by (simp add: js_sort_def)
qed

text \<open>
  A list of two or more events one of which has no valid date is in ascending order of
  the parsed dates in no order of its elements.
\<close>

lemma unparseable_not_sorted:
  assumes e: "e \<in> set xs" and bad: "P (startDate e) = None" and two: "2 \<le> length xs"
  shows "\<not> sorted_wrt (start_le P) xs"
proof
  assume s: "sorted_wrt (start_le P) xs"
  from e obtain k where k: "k < length xs" "xs ! k = e"
    by (auto simp: in_set_conv_nth)
  have ne: "\<not> start_le P a e \<and> \<not> start_le P e a" for a
    using bad by (auto simp: start_le_def split: option.splits)
  show False
  proof (cases "k = 0")
    case True
    with two have "k < 1" "1 < length xs" by simp_all
    with sorted_wrt_nth_less[OF s, of k 1] k ne show False by simp
  next
    case False
    then have "0 < k" by simp
    with sorted_wrt_nth_less[OF s, of 0 k] k ne show False by simp
  qed
qed

text \<open>
  C6.  The claim: for every list of events both buckets of \<^verbatim>\<open>getTimeEvents\<close> are in
  ascending order of the parsed \<^verbatim>\<open>startDate\<close>.  Three events, the second with a
  \<^verbatim>\<open>startDate\<close> that is no date, at a time before all of them: all three are upcoming
  (the comparison of the clock with an invalid date is false), the comparator returns
  \<^verbatim>\<open>NaN\<close> against the second event, and \<^verbatim>\<open>upcomingEvents\<close> is the list as it was:
  2020 before 2019.
\<close>

theorem getTimeEvents_partition_counterexample:
  "getTimeEvents example_Date_parse (\<lambda>i. 0) events_with_unparseable
     = ([], [\<lparr>ev_id = 1, startDate = ''2020-01-01''\<rparr>, \<lparr>ev_id = 2, startDate = ''not a date''\<rparr>,
             \<lparr>ev_id = 3, startDate = ''2019-01-01''\<rparr>])
   \<and> example_Date_parse ''not a date'' = None
   \<and> \<not> sorted_wrt (start_le example_Date_parse)
        [\<lparr>ev_id = 1, startDate = ''2020-01-01''\<rparr>, \<lparr>ev_id = 2, startDate = ''not a date''\<rparr>,
         \<lparr>ev_id = 3, startDate = ''2019-01-01''\<rparr>]
   \<and> \<not> sorted_wrt (start_le example_Date_parse)
        [\<lparr>ev_id = 1, startDate = ''2020-01-01''\<rparr>, \<lparr>ev_id = 3, startDate = ''2019-01-01''\<rparr>]"
  by code_simp

text \<open>
  C6, amended.  For a list of events and a fixed current time \<open>now\<close> (the clock reads
  \<open>now\<close> at every iteration), \<^verbatim>\<open>getTimeEvents\<close> puts an event into \<^verbatim>\<open>pastEvents\<close>
  exactly when its parsed \<^verbatim>\<open>startDate\<close> is strictly earlier than \<open>now\<close> and into
  \<^verbatim>\<open>upcomingEvents\<close> otherwise, where an event whose \<^verbatim>\<open>startDate\<close> does not parse
  goes; the two buckets together hold every event exactly as often as the list does;
  \<^verbatim>\<open>pastEvents\<close> is in ascending order of the parsed \<^verbatim>\<open>startDate\<close>, and so is
  \<^verbatim>\<open>upcomingEvents\<close> when every \<^verbatim>\<open>startDate\<close> parses.  When some \<^verbatim>\<open>startDate\<close> does
  not parse and \<^verbatim>\<open>upcomingEvents\<close> has two or more events, \<^verbatim>\<open>upcomingEvents\<close> is not
  in ascending order.
\<close>

theorem getTimeEvents_partition:
  assumes "getTimeEvents P (\<lambda>i. now) events = (pastEvents, upcomingEvents)"
  shows "(\<forall>e. e \<in> set pastEvents \<longleftrightarrow>
             e \<in> set events \<and> (\<exists>t. P (startDate e) = Some t \<and> t < now))
       \<and> (\<forall>e. e \<in> set upcomingEvents \<longleftrightarrow>
             e \<in> set events \<and> \<not> (\<exists>t. P (startDate e) = Some t \<and> t < now))
       \<and> mset pastEvents + mset upcomingEvents = mset events
       \<and> sorted_wrt (start_le P) pastEvents
       \<and> ((\<forall>e \<in> set events. P (startDate e) \<noteq> None) \<longrightarrow>
            sorted_wrt (start_le P) upcomingEvents)
       \<and> ((\<exists>e \<in> set events. P (startDate e) = None) \<and> 2 \<le> length upcomingEvents \<longrightarrow>
            \<not> sorted_wrt (start_le P) upcomingEvents)"
proof -
  from assms have past: "pastEvents = js_sort (sorter P) (filter (is_past P now) events)"
    and up: "upcomingEvents = js_sort (sorter P) (filter (\<lambda>e. \<not> is_past P now e) events)"
    by (simp_all add: getTimeEvents_def partition_loop_fixed_clock)
  have ip: "is_past P now e \<longleftrightarrow> (\<exists>t. P (startDate e) = Some t \<and> t < now)" for e
    by (auto simp: is_past_def split: option.splits)
  have "\<forall>x \<in> set (filter (is_past P now) events). P (startDate x) \<noteq> None"
    by (auto simp: ip)
  then have s1: "sorted_wrt (start_le P) pastEvents"
    unfolding past by (rule sorted_js_sort)
  have s2: "(\<forall>e \<in> set events. P (startDate e) \<noteq> None) \<longrightarrow>
            sorted_wrt (start_le P) upcomingEvents"
    unfolding up by (intro impI sorted_js_sort) simp
  have m: "mset pastEvents + mset upcomingEvents = mset events"
    unfolding past up by (simp add: mset_js_sort)
  have a: "\<forall>e. e \<in> set pastEvents \<longleftrightarrow>
             e \<in> set events \<and> (\<exists>t. P (startDate e) = Some t \<and> t < now)"
    unfolding past by (auto simp: set_js_sort ip)
  have b: "\<forall>e. e \<in> set upcomingEvents \<longleftrightarrow>
             e \<in> set events \<and> \<not> (\<exists>t. P (startDate e) = Some t \<and> t < now)"
    unfolding up by (auto simp: set_js_sort ip)
  have s3: "(\<exists>e \<in> set events. P (startDate e) = None) \<and> 2 \<le> length upcomingEvents \<longrightarrow>
            \<not> sorted_wrt (start_le P) upcomingEvents"
  proof
    assume h: "(\<exists>e \<in> set events. P (startDate e) = None) \<and> 2 \<le> length upcomingEvents"
    then obtain e where e: "e \<in> set events" "P (startDate e) = None" by blast
    with b have "e \<in> set upcomingEvents" by simp
    from unparseable_not_sorted[where P = P, OF this e(2)] h
    show "\<not> sorted_wrt (start_le P) upcomingEvents" by simp
  qed
  from a b m s1 s2 s3 show ?thesis by blast
qed

theorem getTimeEvents_partition_witness:
  "getTimeEvents example_Date_parse (\<lambda>i. 1800000000000) example_events
     = ([\<lparr>ev_id = 3, startDate = ''2019-01-01''\<rparr>, \<lparr>ev_id = 2, startDate = ''2020-01-01''\<rparr>],
        [\<lparr>ev_id = 1, startDate = ''2099-01-01''\<rparr>])
   \<and> list_all (\<lambda>e. example_Date_parse (startDate e) \<noteq> None) example_events
   \<and> sorted_wrt (start_le example_Date_parse)
        [\<lparr>ev_id = 3, startDate = ''2019-01-01''\<rparr>, \<lparr>ev_id = 2, startDate = ''2020-01-01''\<rparr>]
   \<and> sorted_wrt (start_le example_Date_parse) [\<lparr>ev_id = 1, startDate = ''2099-01-01''\<rparr>]
   \<and> getTimeEvents example_Date_parse (\<lambda>i. 1800000000000) events_with_unparseable
     = ([\<lparr>ev_id = 3, startDate = ''2019-01-01''\<rparr>, \<lparr>ev_id = 1, startDate = ''2020-01-01''\<rparr>],
        [\<lparr>ev_id = 2, startDate = ''not a date''\<rparr>])
   \<and> sorted_wrt (start_le example_Date_parse)
        [\<lparr>ev_id = 3, startDate = ''2019-01-01''\<rparr>, \<lparr>ev_id = 1, startDate = ''2020-01-01''\<rparr>]
   \<and> list_ex (\<lambda>e. example_Date_parse (startDate e) = None) events_with_unparseable
   \<and> 2 \<le> length (snd (getTimeEvents example_Date_parse (\<lambda>i. 0) events_with_unparseable))
   \<and> \<not> sorted_wrt (start_le example_Date_parse)
        (snd (getTimeEvents example_Date_parse (\<lambda>i. 0) events_with_unparseable))"
proof -
  have run: "getTimeEvents example_Date_parse (\<lambda>i. 1800000000000) example_events
     = ([\<lparr>ev_id = 3, startDate = ''2019-01-01''\<rparr>, \<lparr>ev_id = 2, startDate = ''2020-01-01''\<rparr>],
        [\<lparr>ev_id = 1, startDate = ''2099-01-01''\<rparr>])"
    by code_simp
  have valid: "list_all (\<lambda>e. example_Date_parse (startDate e) \<noteq> None) example_events"
    by code_simp
  then have "\<forall>e \<in> set example_events. example_Date_parse (startDate e) \<noteq> None"
    by (simp add: list_all_iff)
  with getTimeEvents_partition[OF run]
  have first: "sorted_wrt (start_le example_Date_parse)
        [\<lparr>ev_id = 3, startDate = ''2019-01-01''\<rparr>, \<lparr>ev_id = 2, startDate = ''2020-01-01''\<rparr>]
   \<and> sorted_wrt (start_le example_Date_parse) [\<lparr>ev_id = 1, startDate = ''2099-01-01''\<rparr>]"
    by blast
  have run2: "getTimeEvents example_Date_parse (\<lambda>i. 1800000000000) events_with_unparseable
     = ([\<lparr>ev_id = 3, startDate = ''2019-01-01''\<rparr>, \<lparr>ev_id = 1, startDate = ''2020-01-01''\<rparr>],
        [\<lparr>ev_id = 2, startDate = ''not a date''\<rparr>])"
    by code_simp
  from getTimeEvents_partition[OF run2]
  have second: "sorted_wrt (start_le example_Date_parse)
        [\<lparr>ev_id = 3, startDate = ''2019-01-01''\<rparr>, \<lparr>ev_id = 1, startDate = ''2020-01-01''\<rparr>]"
    by blast
  have bad: "list_ex (\<lambda>e. example_Date_parse (startDate e) = None) events_with_unparseable"
    by code_simp
  then have bad': "\<exists>e \<in> set events_with_unparseable. example_Date_parse (startDate e) = None"
    by (simp add: list_ex_iff)
  have len: "2 \<le> length (snd (getTimeEvents example_Date_parse (\<lambda>i. 0)
      events_with_unparseable))"
    by code_simp
  have run3: "getTimeEvents example_Date_parse (\<lambda>i. 0) events_with_unparseable
     = (fst (getTimeEvents example_Date_parse (\<lambda>i. 0) events_with_unparseable),
        snd (getTimeEvents example_Date_parse (\<lambda>i. 0) events_with_unparseable))"
    by simp
  from getTimeEvents_partition[OF run3] bad' len
  have third: "\<not> sorted_wrt (start_le example_Date_parse)
        (snd (getTimeEvents example_Date_parse (\<lambda>i. 0) events_with_unparseable))"
    by blast
  from run valid first run2 second bad len third show ?thesis by blast
qed

subsection \<open>The events of a group\<close>

lemma event_joins_rows: "event_joins d = concat (map (rows_of_event d) (Events d))"
  unfolding event_joins_def left_join_def rows_of_event_def event_attending_def
    event_previews_def event_groups_def event_venues_def
  by (simp add: concat_map_concat comp_def)

lemma rows_of_event_parts:
  assumes "r \<in> set (rows_of_event d e)"
  shows "ej_event r = e"
    and "ej_attendance r \<in> set (outer (event_attending d (e_id e)))"
    and "ej_image r \<in> set (outer (event_previews d (e_id e)))"
    and "ej_group r \<in> set (outer (event_groups d e))"
    and "ej_venue r \<in> set (outer (event_venues d e))"
  using assms
  by (auto simp: rows_of_event_def ej_event_def ej_attendance_def ej_image_def ej_group_def
      ej_venue_def)

lemma count_concat:
  assumes "\<And>x. x \<in> set xs \<Longrightarrow> length (filter P (f x)) = (if A x then k else 0)"
  shows "length (filter P (concat (map f xs))) = length (filter A xs) * k"
  using assms by (induction xs) auto

lemma count_rows_of_event:
  "length (filter (\<lambda>r. A (ej_attendance r) \<and> B (ej_image r) \<and> C (ej_group r) \<and> D (ej_venue r))
     (rows_of_event d e))
   = length (filter A (outer (event_attending d (e_id e))))
     * (length (filter B (outer (event_previews d (e_id e))))
        * (length (filter C (outer (event_groups d e)))
           * length (filter D (outer (event_venues d e)))))"
  unfolding rows_of_event_def
proof (rule count_concat, goal_cases)
  case (1 ao)
  show ?case
  proof (cases "A ao")
    case False
    then show ?thesis by (simp add: ej_attendance_def filter_concat comp_def filter_map)
  next
    case True
    have "length (filter (\<lambda>r. A (ej_attendance r) \<and> B (ej_image r) \<and> C (ej_group r) \<and> D (ej_venue r))
        (concat (map (\<lambda>io. concat (map (\<lambda>go. map (\<lambda>vo. ((((e, ao), io), go), vo))
            (outer (event_venues d e))) (outer (event_groups d e))))
          (outer (event_previews d (e_id e))))))
      = length (filter B (outer (event_previews d (e_id e))))
        * (length (filter C (outer (event_groups d e)))
           * length (filter D (outer (event_venues d e))))"
    proof (rule count_concat, goal_cases)
      case (1 io)
      show ?case
      proof (cases "B io")
        case False
        then show ?thesis by (simp add: ej_image_def filter_concat comp_def filter_map)
      next
        case Bio: True
        have "length (filter (\<lambda>r. A (ej_attendance r) \<and> B (ej_image r) \<and> C (ej_group r) \<and> D (ej_venue r))
            (concat (map (\<lambda>go. map (\<lambda>vo. ((((e, ao), io), go), vo))
                (outer (event_venues d e))) (outer (event_groups d e)))))
          = length (filter C (outer (event_groups d e)))
             * length (filter D (outer (event_venues d e)))"
        proof (rule count_concat, goal_cases)
          case (1 go)
          show ?case using True Bio
            by (simp add: ej_attendance_def ej_image_def ej_group_def ej_venue_def
                filter_map comp_def)
        qed
        with Bio show ?thesis by simp
      qed
    qed
    with True show ?thesis by simp
  qed
qed

lemma filter_event_rows:
  assumes "distinct (map e_id es)" and "e \<in> set es"
  shows "filter (\<lambda>r. e_id (ej_event r) = e_id e \<and> Q r) (concat (map (rows_of_event d) es))
         = filter Q (rows_of_event d e)"
  using assms
proof (induction es)
  case Nil
  then show ?case by simp
next
  case (Cons a es)
  have same: "filter (\<lambda>r. e_id (ej_event r) = e_id x \<and> Q r) (rows_of_event d x)
      = filter Q (rows_of_event d x)" for x
    by (rule filter_cong) (auto dest: rows_of_event_parts(1))
  have other: "filter (\<lambda>r. e_id (ej_event r) = e_id e \<and> Q r) (rows_of_event d x) = []"
    if "e_id x \<noteq> e_id e" for x
    using that by (auto simp: filter_empty_conv dest: rows_of_event_parts(1))
  show ?case
  proof (cases "a = e")
    case True
    with Cons.prems have "e_id e \<notin> e_id ` set es" by simp
    then have "\<forall>x \<in> set es. e_id x \<noteq> e_id e" by (metis image_eqI)
    then have "filter (\<lambda>r. e_id (ej_event r) = e_id e \<and> Q r) (concat (map (rows_of_event d) es)) = []"
      by (auto simp: filter_empty_conv dest: rows_of_event_parts(1))
    with True show ?thesis by (simp add: same)
  next
    case False
    with Cons.prems have e: "e \<in> set es" and ne: "e_id a \<noteq> e_id e" and d: "distinct (map e_id es)"
      by auto
    from Cons.IH[OF d e] ne show ?thesis by (simp add: other)
  qed
qed

lemma count_outer_some:
  "length (filter (\<lambda>x. map_option f x \<noteq> None) (outer xs)) = length xs"
  by (simp add: outer_def filter_map comp_def)

lemma count_outer_url:
  "io \<in> set (outer ps) \<Longrightarrow>
   length (filter (\<lambda>x. map_option f x = map_option f io) (outer ps))
   = (case map_option f io of None \<Rightarrow> 1 | Some u \<Rightarrow> length (filter (\<lambda>p. f p = u) ps))"
  by (auto simp: outer_def filter_map comp_def split: if_splits)

lemma count_outer_unique:
  assumes "distinct (map f xs)" and "x \<in> set (outer xs)"
  shows "length (filter (\<lambda>y. map_option f y = map_option f x) (outer xs)) = 1"
proof (cases "xs = []")
  case True
  with assms(2) show ?thesis by (simp add: outer_def)
next
  case False
  with assms(2) obtain p where p: "p \<in> set xs" and x: "x = Some p" by (auto simp: outer_def)
  from length_filter_distinct_key[OF assms(1) p] False x show ?thesis
    by (simp add: outer_def filter_map comp_def)
qed

lemma distinct_event_groups: "distinct (map g_id (Groups d)) \<Longrightarrow> distinct (map g_id (event_groups d e))"
  unfolding event_groups_def by (rule distinct_map_filter)

lemma distinct_event_venues: "distinct (map v_id (Venues d)) \<Longrightarrow> distinct (map v_id (event_venues d e))"
  unfolding event_venues_def by (rule distinct_map_filter)

text \<open>
  The aggregate of one bucket of the event listing: the attending rows of the event,
  each counted once per joined preview image with the bucket's url.
\<close>

lemma event_bucket_count:
  assumes pkE: "distinct (map e_id (Events d))" and pkG: "distinct (map g_id (Groups d))"
    and pkV: "distinct (map v_id (Venues d))"
    and e: "e \<in> set (Events d)" and r: "r \<in> set (rows_of_event d e)"
  shows "COUNT (\<lambda>x. map_option a_id (ej_attendance x))
           (filter (\<lambda>x. event_key x = event_key r)
              (filter (\<lambda>x. e_groupId (ej_event x) = e_groupId e) (event_joins d)))
         = length (event_attending d (e_id e))
           * event_preview_multiplicity d (e_id e) (map_option ei_url (ej_image r))"
proof -
  note parts = rows_of_event_parts[OF r]
  let ?A = "\<lambda>ao. map_option a_id ao \<noteq> None"
  let ?B = "\<lambda>io. map_option ei_url io = map_option ei_url (ej_image r)"
  let ?C = "\<lambda>go. map_option g_id go = map_option g_id (ej_group r)"
  let ?D = "\<lambda>vo. map_option v_id vo = map_option v_id (ej_venue r)"
  have "filter (\<lambda>x. map_option a_id (ej_attendance x) \<noteq> None)
          (filter (\<lambda>x. event_key x = event_key r)
              (filter (\<lambda>x. e_groupId (ej_event x) = e_groupId e) (event_joins d)))
        = filter (\<lambda>x. e_id (ej_event x) = e_id e \<and>
             (e_groupId (ej_event x) = e_groupId e \<and>
              ?A (ej_attendance x) \<and> ?B (ej_image x) \<and> ?C (ej_group x) \<and> ?D (ej_venue x)))
            (concat (map (rows_of_event d) (Events d)))"
    unfolding filter_filter event_joins_rows
    by (rule filter_cong) (auto simp: event_key_def parts(1))
  also have "\<dots> = filter (\<lambda>x. e_groupId (ej_event x) = e_groupId e \<and>
              ?A (ej_attendance x) \<and> ?B (ej_image x) \<and> ?C (ej_group x) \<and> ?D (ej_venue x))
            (rows_of_event d e)"
    by (rule filter_event_rows[OF pkE e])
  also have "\<dots> = filter (\<lambda>x.
              ?A (ej_attendance x) \<and> ?B (ej_image x) \<and> ?C (ej_group x) \<and> ?D (ej_venue x))
            (rows_of_event d e)"
    by (rule filter_cong) (auto dest: rows_of_event_parts(1))
  finally have F: "filter (\<lambda>x. map_option a_id (ej_attendance x) \<noteq> None)
          (filter (\<lambda>x. event_key x = event_key r)
              (filter (\<lambda>x. e_groupId (ej_event x) = e_groupId e) (event_joins d)))
        = filter (\<lambda>x.
              ?A (ej_attendance x) \<and> ?B (ej_image x) \<and> ?C (ej_group x) \<and> ?D (ej_venue x))
            (rows_of_event d e)" .
  have c: "length (filter ?C (outer (event_groups d e))) = 1"
    by (rule count_outer_unique[OF distinct_event_groups[OF pkG] parts(4)])
  have v: "length (filter ?D (outer (event_venues d e))) = 1"
    by (rule count_outer_unique[OF distinct_event_venues[OF pkV] parts(5)])
  have a: "length (filter ?A (outer (event_attending d (e_id e)))) = length (event_attending d (e_id e))"
    by (rule count_outer_some)
  have b: "length (filter ?B (outer (event_previews d (e_id e))))
      = event_preview_multiplicity d (e_id e) (map_option ei_url (ej_image r))"
    unfolding event_preview_multiplicity_def by (rule count_outer_url[OF parts(3)])
  have "COUNT (\<lambda>x. map_option a_id (ej_attendance x))
           (filter (\<lambda>x. event_key x = event_key r)
              (filter (\<lambda>x. e_groupId (ej_event x) = e_groupId e) (event_joins d)))
      = length (filter ?A (outer (event_attending d (e_id e))))
     * (length (filter ?B (outer (event_previews d (e_id e))))
        * (length (filter ?C (outer (event_groups d e)))
           * length (filter ?D (outer (event_venues d e)))))"
    unfolding COUNT_def F by (rule count_rows_of_event[where A = ?A and B = ?B and C = ?C and D = ?D])
  then show ?thesis
    by (simp only: a b c v mult_1_right)
qed

text \<open>Every entry of the event listing comes from a joined row of one event of the group.\<close>

lemma events_findAll_origin:
  assumes "en \<in> set (events_findAll gid d)"
  obtains r e where "e \<in> set (Events d)" "r \<in> set (rows_of_event d e)" "e_groupId e = gid"
    "ee_event en = e"
    "ee_previewImage en = map_option ei_url (ej_image r)"
    "ee_Group en = ej_group r" "ee_Venue en = ej_venue r"
    "numAttending en = COUNT (\<lambda>x. map_option a_id (ej_attendance x))
        (filter (\<lambda>x. event_key x = event_key r)
           (filter (\<lambda>x. e_groupId (ej_event x) = gid) (event_joins d)))"
proof -
  let ?rows = "filter (\<lambda>x. e_groupId (ej_event x) = gid) (event_joins d)"
  have "set (events_findAll gid d) \<subseteq> set (map event_select (group_by event_key ?rows))"
    unfolding events_findAll_def by (rule groupJoinData_subset)
  with assms obtain r b where rb: "(r, b) \<in> set (group_by event_key ?rows)"
    and en: "en = event_select (r, b)" by auto
  from group_by_bucket[OF rb] have r: "r \<in> set ?rows"
    and b: "b = filter (\<lambda>x. event_key x = event_key r) ?rows" by simp_all
  from r have rin: "r \<in> set (event_joins d)" and w: "e_groupId (ej_event r) = gid" by simp_all
  from rin obtain e where e: "e \<in> set (Events d)" and re: "r \<in> set (rows_of_event d e)"
    by (auto simp: event_joins_rows)
  from rows_of_event_parts(1)[OF re] have ev: "ej_event r = e" .
  show ?thesis
    by (rule that[OF e re]) (use w ev en b in \<open>simp_all add: event_select_def\<close>)
qed

lemma events_findAll_numAttending:
  assumes pkE: "distinct (map e_id (Events d))" and pkG: "distinct (map g_id (Groups d))"
    and pkV: "distinct (map v_id (Venues d))"
    and en: "en \<in> set (events_findAll gid d)"
  shows "numAttending en = length (event_attending d (e_id (ee_event en)))
           * event_preview_multiplicity d (e_id (ee_event en)) (ee_previewImage en)"
proof -
  from en obtain r e where e: "e \<in> set (Events d)" and re: "r \<in> set (rows_of_event d e)"
    and g: "e_groupId e = gid" and ev: "ee_event en = e"
    and pv: "ee_previewImage en = map_option ei_url (ej_image r)"
    and n: "numAttending en = COUNT (\<lambda>x. map_option a_id (ej_attendance x))
        (filter (\<lambda>x. event_key x = event_key r)
           (filter (\<lambda>x. e_groupId (ej_event x) = gid) (event_joins d)))"
    by (rule events_findAll_origin)
  from event_bucket_count[OF pkE pkG pkV e re] n g ev pv show ?thesis by simp
qed

lemma event_preview_multiplicity_distinct:
  assumes "distinct (map ei_url (event_previews d eid))"
    and "u = None \<or> (\<exists>p \<in> set (event_previews d eid). u = Some (ei_url p))"
  shows "event_preview_multiplicity d eid u = 1"
proof (cases u)
  case None
  then show ?thesis by (simp add: event_preview_multiplicity_def)
next
  case (Some x)
  with assms(2) obtain p where p: "p \<in> set (event_previews d eid)" and x: "x = ei_url p" by auto
  from length_filter_distinct_key[OF assms(1) p] Some x show ?thesis
    by (simp add: event_preview_multiplicity_def)
qed

lemma outer_cases:
  assumes "x \<in> set (outer xs)"
  shows "(xs = [] \<and> x = None) \<or> (\<exists>p \<in> set xs. x = Some p)"
  using assms by (auto simp: outer_def split: if_splits)

text \<open>
  With the primary keys in place and at most one preview image per url, the listing's
  count is the number of Attendance rows of the event with status attending.
\<close>

lemma events_findAll_numAttending_distinct_urls:
  assumes pkE: "distinct (map e_id (Events d))" and pkG: "distinct (map g_id (Groups d))"
    and pkV: "distinct (map v_id (Venues d))"
    and en: "en \<in> set (events_findAll gid d)"
    and urls: "distinct (map ei_url (event_previews d (e_id (ee_event en))))"
  shows "numAttending en
     = length (filter (\<lambda>a. a_eventId a = e_id (ee_event en) \<and> a_status a = ''attending'')
         (Attendances d))"
proof -
  from en obtain r e where re: "r \<in> set (rows_of_event d e)" and ev: "ee_event en = e"
    and pv: "ee_previewImage en = map_option ei_url (ej_image r)"
    by (rule events_findAll_origin)
  from outer_cases[OF rows_of_event_parts(3)[OF re]] pv ev
  have "ee_previewImage en = None
      \<or> (\<exists>p \<in> set (event_previews d (e_id (ee_event en))). ee_previewImage en = Some (ei_url p))"
    by auto
  from event_preview_multiplicity_distinct[OF urls this]
    events_findAll_numAttending[OF pkE pkG pkV en]
  show ?thesis by (simp add: event_attending_def)
qed

lemma event_toJSON_keys:
  "map fst (event_toJSON en)
   = filter (\<lambda>k. k \<notin> set events_exclude) (map fst (Event_attributes (ee_event en)))
     @ [''numAttending'', ''previewImage'', ''Group'', ''Venue'']"
  by (simp add: event_toJSON_def filter_map comp_def)

lemma event_toJSON_excluded:
  "k \<in> set events_exclude \<Longrightarrow> k \<notin> fst ` set (event_toJSON en)"
proof -
  assume k: "k \<in> set events_exclude"
  then have "k \<notin> set [''numAttending'', ''previewImage'', ''Group'', ''Venue'']"
    by (auto simp: events_exclude_def)
  with k have "k \<notin> set (map fst (event_toJSON en))"
    unfolding event_toJSON_keys by simp
  then show ?thesis by simp
qed

text \<open>
  C3.  The claim: for every event of the listing of GET /groups/:groupId/events,
  \<^verbatim>\<open>numAttending\<close> is the number of Attendance rows of the event with status
  attending.  The route at an event with one attending and one pending Attendance row
  whose one preview image was attached twice: the pending row is not counted, but the
  attending row is counted once per joined image row and the listing reports 2.  (By
  \<open>events_findAll_numAttending\<close> the count of attending rows is multiplied by the number
  of preview images of the event with the entry's url; by
  \<open>events_findAll_numAttending_distinct_urls\<close> it is right when no two share a url.)
\<close>

theorem GET_group_events_numAttending_same_preview_twice:
  "map numAttending (events_findAll 1 store_event_same_preview_twice) = [2]
   \<and> map_sum status (map (\<lambda>j. map_of j ''numAttending''))
        (GET_group_events (request_of (Some 2) 1) store_event_same_preview_twice)
       = Inr [Some (JVal (JNum 2))]
   \<and> length (filter (\<lambda>a. a_eventId a = 1 \<and> a_status a = ''attending'')
        (Attendances store_event_same_preview_twice)) = 1
   \<and> map_sum status (map (\<lambda>j. map_of j ''numAttending''))
        (GET_group_events (request_of (Some 2) 1) store_events)
       = Inr [Some (JVal (JNum 1))]"
  by code_simp

text \<open>
  C9.  The claim: every event object of the listing of GET /groups/:groupId/events
  holds the Venue summary (id, city, state).  The Venue is joined by a left outer join;
  for an event without a venue the \<^verbatim>\<open>Venue\<close> of the response is null, and so is its
  \<^verbatim>\<open>venueId\<close>.
\<close>

theorem GET_group_events_fields_counterexample:
  "map e_venueId (Events store_event_without_venue) = [None]
   \<and> map_sum status (map (\<lambda>j. map_of j ''Venue''))
        (GET_group_events (request_of (Some 2) 1) store_event_without_venue)
       = Inr [Some (JVal JNull)]
   \<and> map_sum status (map (\<lambda>j. map_of j ''venueId''))
        (GET_group_events (request_of (Some 2) 1) store_event_without_venue)
       = Inr [Some (JVal JNull)]
   \<and> map_sum status (map (\<lambda>j. map_of j ''Group''))
        (GET_group_events (request_of (Some 2) 1) store_event_without_venue)
       = Inr [Some (JObj [(''id'', JNum 1), (''name'', JStr ''Evening Tennis on the Water''),
                          (''city'', JStr ''New York''), (''state'', JStr ''NY'')])]"
  by code_simp

text \<open>
  C9, amended.  For an authenticated request and an existing group, every event object
  of the listing of GET /groups/:groupId/events has no \<^verbatim>\<open>description\<close>,
  \<^verbatim>\<open>capacity\<close> or \<^verbatim>\<open>price\<close>; its keys are the model's attributes that are not
  excluded, then \<^verbatim>\<open>numAttending\<close>, \<^verbatim>\<open>previewImage\<close>, \<^verbatim>\<open>Group\<close> and \<^verbatim>\<open>Venue\<close>;
  \<^verbatim>\<open>Group\<close> is the summary (id, name, city, state) of the group; \<^verbatim>\<open>Venue\<close> is the
  summary (id, city, state) of the venue the event's \<^verbatim>\<open>venueId\<close> references, and
  null for an event that has no venue or whose \<^verbatim>\<open>venueId\<close> references no Venue row.
\<close>

theorem GET_group_events_fields:
  assumes auth: "user_id req = Some u" and ex: "findByPk d (groupId req) = Some g"
  shows "GET_group_events req d = Inr (map event_toJSON (events_findAll (groupId req) d))
   \<and> (\<forall>en \<in> set (events_findAll (groupId req) d).
        ''description'' \<notin> fst ` set (event_toJSON en)
      \<and> ''capacity'' \<notin> fst ` set (event_toJSON en)
      \<and> ''price'' \<notin> fst ` set (event_toJSON en)
      \<and> map fst (event_toJSON en)
          = filter (\<lambda>k. k \<notin> set events_exclude) (map fst (Event_attributes (ee_event en)))
            @ [''numAttending'', ''previewImage'', ''Group'', ''Venue'']
      \<and> (''numAttending'', JVal (JNum (real (numAttending en)))) \<in> set (event_toJSON en)
      \<and> (''previewImage'', JVal (case ee_previewImage en of None \<Rightarrow> JNull | Some x \<Rightarrow> JStr x))
          \<in> set (event_toJSON en)
      \<and> (\<exists>g' \<in> set (Groups d). g_id g' = groupId req
           \<and> (''Group'', JObj [(''id'', JNum (real (g_id g'))), (''name'', g_name g'),
                               (''city'', g_city g'), (''state'', g_state g')])
              \<in> set (event_toJSON en))
      \<and> (e_venueId (ee_event en) \<in> Some ` v_id ` set (Venues d) \<longrightarrow>
           (\<exists>v \<in> set (Venues d). Some (v_id v) = e_venueId (ee_event en)
             \<and> (''Venue'', JObj [(''id'', JNum (real (v_id v))), (''city'', v_city v),
                                 (''state'', v_state v)])
                \<in> set (event_toJSON en)))
      \<and> (e_venueId (ee_event en) \<notin> Some ` v_id ` set (Venues d) \<longrightarrow>
           (''Venue'', JVal JNull) \<in> set (event_toJSON en)))"
proof (intro conjI ballI)
  show "GET_group_events req d = Inr (map event_toJSON (events_findAll (groupId req) d))"
    using auth ex by (simp add: GET_group_events_def requireAuth_def groupExists_def)
next
  fix en assume en: "en \<in> set (events_findAll (groupId req) d)"
  show "''description'' \<notin> fst ` set (event_toJSON en)"
    and "''capacity'' \<notin> fst ` set (event_toJSON en)"
    and "''price'' \<notin> fst ` set (event_toJSON en)"
    by (rule event_toJSON_excluded, simp add: events_exclude_def)+
  show "map fst (event_toJSON en)
          = filter (\<lambda>k. k \<notin> set events_exclude) (map fst (Event_attributes (ee_event en)))
            @ [''numAttending'', ''previewImage'', ''Group'', ''Venue'']"
    by (rule event_toJSON_keys)
  show "(''numAttending'', JVal (JNum (real (numAttending en)))) \<in> set (event_toJSON en)"
    and "(''previewImage'', JVal (case ee_previewImage en of None \<Rightarrow> JNull | Some x \<Rightarrow> JStr x))
          \<in> set (event_toJSON en)"
    by (simp_all add: event_toJSON_def)
  from en obtain r e where re: "r \<in> set (rows_of_event d e)" and eg: "e_groupId e = groupId req"
    and ev: "ee_event en = e" and G: "ee_Group en = ej_group r" and V: "ee_Venue en = ej_venue r"
    by (rule events_findAll_origin)
  from findByPk_id[OF ex] eg have "g \<in> set (event_groups d e)"
    by (simp add: event_groups_def)
  then have "event_groups d e \<noteq> []" by auto
  with outer_cases[OF rows_of_event_parts(4)[OF re]]
  obtain g' where g': "g' \<in> set (event_groups d e)" and gr: "ej_group r = Some g'" by auto
  from g' eg have "g' \<in> set (Groups d)" and "g_id g' = groupId req"
    by (simp_all add: event_groups_def)
  moreover have "(''Group'', JObj [(''id'', JNum (real (g_id g'))), (''name'', g_name g'),
                               (''city'', g_city g'), (''state'', g_state g')])
              \<in> set (event_toJSON en)"
    using G gr by (simp add: event_toJSON_def Group_summary_def)
  ultimately show "\<exists>g' \<in> set (Groups d). g_id g' = groupId req
           \<and> (''Group'', JObj [(''id'', JNum (real (g_id g'))), (''name'', g_name g'),
                               (''city'', g_city g'), (''state'', g_state g')])
              \<in> set (event_toJSON en)"
    by blast
  show "e_venueId (ee_event en) \<in> Some ` v_id ` set (Venues d) \<longrightarrow>
           (\<exists>v \<in> set (Venues d). Some (v_id v) = e_venueId (ee_event en)
             \<and> (''Venue'', JObj [(''id'', JNum (real (v_id v))), (''city'', v_city v),
                                 (''state'', v_state v)])
                \<in> set (event_toJSON en))"
  proof
    assume "e_venueId (ee_event en) \<in> Some ` v_id ` set (Venues d)"
    then have "event_venues d e \<noteq> []"
      unfolding ev event_venues_def by (auto simp: filter_empty_conv)
    with outer_cases[OF rows_of_event_parts(5)[OF re]]
    obtain v where v: "v \<in> set (event_venues d e)" and vr: "ej_venue r = Some v" by auto
    from v ev have "v \<in> set (Venues d)" and "Some (v_id v) = e_venueId (ee_event en)"
      by (simp_all add: event_venues_def)
    moreover have "(''Venue'', JObj [(''id'', JNum (real (v_id v))), (''city'', v_city v),
                                 (''state'', v_state v)]) \<in> set (event_toJSON en)"
      using V vr by (simp add: event_toJSON_def Venue_summary_def)
    ultimately show "\<exists>v \<in> set (Venues d). Some (v_id v) = e_venueId (ee_event en)
             \<and> (''Venue'', JObj [(''id'', JNum (real (v_id v))), (''city'', v_city v),
                                 (''state'', v_state v)])
                \<in> set (event_toJSON en)"
      by blast
  qed
  show "e_venueId (ee_event en) \<notin> Some ` v_id ` set (Venues d) \<longrightarrow>
           (''Venue'', JVal JNull) \<in> set (event_toJSON en)"
  proof
    assume "e_venueId (ee_event en) \<notin> Some ` v_id ` set (Venues d)"
    then have "\<forall>x \<in> set (Venues d). Some (v_id x) \<noteq> e_venueId e"
      unfolding ev by (metis image_eqI)
    then have "event_venues d e = []"
      unfolding event_venues_def by (simp add: filter_empty_conv)
    with outer_cases[OF rows_of_event_parts(5)[OF re]] have "ej_venue r = None" by auto
    with V show "(''Venue'', JVal JNull) \<in> set (event_toJSON en)"
      by (simp add: event_toJSON_def)
  qed
qed

theorem GET_group_events_fields_witness:
  "user_id (request_of (Some 2) 1) = Some 2
   \<and> findByPk store_events (groupId (request_of (Some 2) 1)) = Some (example_group 1 1)
   \<and> GET_group_events (request_of (Some 2) 1) store_events
       = Inr (map event_toJSON (events_findAll (groupId (request_of (Some 2) 1)) store_events))
   \<and> map event_toJSON (events_findAll 1 store_events)
       = [[(''id'', JVal (JNum 1)), (''groupId'', JVal (JNum 1)), (''venueId'', JVal (JNum 1)),
           (''name'', JVal (JStr ''Tennis Group First Meet and Greet'')),
           (''startDate'', JVal (JStr ''2021-11-19 20:00:00'')),
           (''numAttending'', JVal (JNum 1)),
           (''previewImage'', JVal (JStr ''e.png'')),
           (''Group'', JObj [(''id'', JNum 1), (''name'', JStr ''Evening Tennis on the Water''),
                             (''city'', JStr ''New York''), (''state'', JStr ''NY'')]),
           (''Venue'', JObj [(''id'', JNum 1), (''city'', JStr ''New York''),
                             (''state'', JStr ''NY'')])]]
   \<and> map v_id (Venues store_events) = [1]
   \<and> map e_venueId (Events store_events) = [Some 1]
   \<and> findByPk store_event_without_venue (groupId (request_of (Some 2) 1))
       = Some (example_group 1 1)
   \<and> GET_group_events (request_of (Some 2) 1) store_event_without_venue
       = Inr (map event_toJSON
           (events_findAll (groupId (request_of (Some 2) 1)) store_event_without_venue))
   \<and> map (\<lambda>j. map_of j ''Venue'') (map event_toJSON (events_findAll 1 store_event_without_venue))
       = [Some (JVal JNull)]"
proof -
  have u: "user_id (request_of (Some 2) 1) = Some 2"
    by (simp add: request_of_def)
  have f: "findByPk store_events (groupId (request_of (Some 2) 1)) = Some (example_group 1 1)"
    by code_simp
  from GET_group_events_fields[OF u f]
  have r: "GET_group_events (request_of (Some 2) 1) store_events
       = Inr (map event_toJSON (events_findAll (groupId (request_of (Some 2) 1)) store_events))"
    by blast
  have j: "map event_toJSON (events_findAll 1 store_events)
       = [[(''id'', JVal (JNum 1)), (''groupId'', JVal (JNum 1)), (''venueId'', JVal (JNum 1)),
           (''name'', JVal (JStr ''Tennis Group First Meet and Greet'')),
           (''startDate'', JVal (JStr ''2021-11-19 20:00:00'')),
           (''numAttending'', JVal (JNum 1)),
           (''previewImage'', JVal (JStr ''e.png'')),
           (''Group'', JObj [(''id'', JNum 1), (''name'', JStr ''Evening Tennis on the Water''),
                             (''city'', JStr ''New York''), (''state'', JStr ''NY'')]),
           (''Venue'', JObj [(''id'', JNum 1), (''city'', JStr ''New York''),
                             (''state'', JStr ''NY'')])]]"
    by code_simp
  have v: "map v_id (Venues store_events) = [1]
      \<and> map e_venueId (Events store_events) = [Some 1]"
    by code_simp
  have f': "findByPk store_event_without_venue (groupId (request_of (Some 2) 1))
       = Some (example_group 1 1)"
    by code_simp
  from GET_group_events_fields[OF u f']
  have r': "GET_group_events (request_of (Some 2) 1) store_event_without_venue
       = Inr (map event_toJSON
           (events_findAll (groupId (request_of (Some 2) 1)) store_event_without_venue))"
    by blast
  have n: "map (\<lambda>j. map_of j ''Venue'')
        (map event_toJSON (events_findAll 1 store_event_without_venue))
       = [Some (JVal JNull)]"
    by code_simp
  from u f r j v f' r' n show ?thesis by blast
qed

end
